theory Spec2Isabelle
  imports Complex_Main "HOL-Library.AList"
begin

section \<open>Values, messages and the environment of the intent service\<close>

text \<open>
  The intent service (\<^verbatim>\<open>source/intent_services/__init__.py\<close>) is a Python class whose
  handlers are called by the message bus. Its fields become a record that every handler
  takes and returns; what it asks of the outside (the clock, the skills answering a
  converse request, the matcher engines, the Adapt engine) is a record of functions,
  \<open>env\<close>, that the handlers only read. A Python exception is a value of \<open>py_error\<close>.
\<close>

datatype py_error =
    IndexError
  | KeyError string
  | AttributeError
  | TypeError
  | ExternalError string

text \<open>
  The entries of a message payload that the service inspects are JSON scalars. Numbers
  are Python integers; floating-point payload values are not modelled.
\<close>

datatype py_value = PNone | PBool bool | PInt int | PStr string

type_synonym py_dict = "(string \<times> py_value) list"

text \<open>Python truthiness (\<^verbatim>\<open>if x:\<close>, \<^verbatim>\<open>x or y\<close>) of a scalar.\<close>

fun truthy :: "py_value \<Rightarrow> bool" where
  "truthy PNone = False"
| "truthy (PBool b) = b"
| "truthy (PInt i) = (i \<noteq> 0)"
| "truthy (PStr s) = (s \<noteq> [])"

text \<open>\<^verbatim>\<open>d.get(k)\<close>, \<^verbatim>\<open>d.get(k, default)\<close>, \<^verbatim>\<open>d[k]\<close> and \<^verbatim>\<open>d[k] = v\<close>.\<close>

definition dict_get :: "py_dict \<Rightarrow> string \<Rightarrow> py_value" where
  "dict_get d k = (case map_of d k of None \<Rightarrow> PNone | Some v \<Rightarrow> v)"

definition dict_get_default :: "py_dict \<Rightarrow> string \<Rightarrow> py_value \<Rightarrow> py_value" where
  "dict_get_default d k dflt = (case map_of d k of None \<Rightarrow> dflt | Some v \<Rightarrow> v)"

definition dict_item :: "py_dict \<Rightarrow> string \<Rightarrow> py_error + py_value" where
  "dict_item d k = (case map_of d k of None \<Rightarrow> Inl (KeyError k) | Some v \<Rightarrow> Inr v)"

definition dict_set :: "py_dict \<Rightarrow> string \<Rightarrow> py_value \<Rightarrow> py_dict" where
  "dict_set d k v = AList.update k v d"

text \<open>
  A bus message. \<open>data\<close> holds the scalar entries of \<^verbatim>\<open>message.data\<close>; the one
  list-valued entry the service reads, \<^verbatim>\<open>message.data["utterances"]\<close>, is the field
  \<open>utterances\<close> (\<open>None\<close> when the key is absent).
\<close>

record message =
  msg_type :: string
  data :: py_dict
  utterances :: "string list option"
  msg_context :: py_dict

text \<open>The \<^verbatim>\<open>IntentMatch\<close> named tuple; a field that is \<^verbatim>\<open>None\<close> is \<open>None\<close>.\<close>

record intent_match =
  intent_service :: string
  intent_type :: "string option"
  intent_data :: "py_dict option"
  skill_id :: "string option"

text \<open>Truthiness of an optional string field (\<^verbatim>\<open>if match.skill_id:\<close>).\<close>

fun truthy_str :: "string option \<Rightarrow> bool" where
  "truthy_str None = False"
| "truthy_str (Some s) = (s \<noteq> [])"

text \<open>The entries of \<^verbatim>\<open>match_funcs\<close>, named after the callables in the list.\<close>

datatype matcher =
    Converse
  | PadatiousHigh
  | Adapt
  | QA
  | FallbackHigh
  | PadatiousMedium
  | FallbackMedium
  | PadatiousLow
  | FallbackLow

text \<open>The payload of a \<^verbatim>\<open>skill.converse.request\<close>.\<close>

record converse_request =
  req_skill_id :: string
  req_utterances :: py_value
  req_lang :: string

text \<open>What the service puts on the bus with \<^verbatim>\<open>bus.emit\<close>.\<close>

datatype bus_message =
    IntentMessage string py_dict
  | CompleteIntentFailure
  | IntentReply "py_dict option"
  | VocabManifest "py_dict list"

datatype log_entry =
    LogError py_value py_value
  | LogWarning string
  | LogDebug string
  | LogException py_error

text \<open>
  The environment. \<open>clock n\<close> is what the \<open>n\<close>-th call of \<^verbatim>\<open>time.time()\<close> returns and
  \<open>wait_for_response n req\<close> what the \<open>n\<close>-th call of \<^verbatim>\<open>bus.wait_for_response\<close> returns
  for the request \<open>req\<close> (\<open>None\<close> on a timeout, else the reply's data). \<open>match_func\<close> is
  the call contract of the matcher engines, which are not part of this module: a match,
  no match, or an exception. \<open>register_vocabulary\<close> is the Adapt engine's registration,
  which may raise. \<open>configuration\<close> is \<^verbatim>\<open>Configuration.get()\<close>.
\<close>

record env =
  clock :: "nat \<Rightarrow> real"
  wait_for_response :: "nat \<Rightarrow> converse_request \<Rightarrow> py_dict option"
  match_func :: "matcher \<Rightarrow> py_value \<Rightarrow> py_value \<Rightarrow> message \<Rightarrow> py_error + intent_match option"
  register_vocabulary :: "py_dict \<Rightarrow> py_error option"
  configuration :: py_dict

text \<open>The entity that \<^verbatim>\<open>handle_add_context\<close> builds for the Adapt context manager.\<close>

record context_entity =
  confidence :: real
  entity_data :: "(string \<times> py_value) list"
  entity_match :: string
  entity_key :: string
  entity_origin :: py_value

text \<open>
  The fields of \<^verbatim>\<open>IntentService\<close> and what it has done so far: the messages emitted,
  the converse requests issued, the log, the matchers called, how often the clock was
  read, and the entities passed to \<^verbatim>\<open>context_manager.inject_context\<close>. \<open>lf_lang\<close> is
  the default language of the formatting/parsing library, which
  \<^verbatim>\<open>set_default_lf_lang\<close> is documented to set.
\<close>

record intent_service =
  active_skills :: "(string \<times> real) list"
  converse_timeout :: real
  registered_vocab :: "py_dict list"
  lf_lang :: string
  emitted :: "bus_message list"
  requests :: "converse_request list"
  logged :: "log_entry list"
  calls :: "(matcher \<times> py_value \<times> py_value) list"
  clock_reads :: nat
  injected :: "context_entity list"

text \<open>The state \<^verbatim>\<open>__init__\<close> leaves (the fields this development follows).\<close>

definition init :: intent_service where
  "init = \<lparr> active_skills = [], converse_timeout = 10, registered_vocab = [],
            lf_lang = ''en-us'', emitted = [], requests = [], logged = [], calls = [],
            clock_reads = 0, injected = [] \<rparr>"

text \<open>\<^verbatim>\<open>time.time()\<close>: the next reading of the clock.\<close>

definition time_time :: "env \<Rightarrow> intent_service \<Rightarrow> real \<times> intent_service" where
  "time_time e s = (clock e (clock_reads s), s\<lparr>clock_reads := Suc (clock_reads s)\<rparr>)"

section \<open>The active-skill registry\<close>

text \<open>
  \<^verbatim>\<open>
  def remove_active_skill(self, skill_id):
      for skill in self.active_skills:
          if skill[0] == skill_id:
              self.active_skills.remove(skill)
  \<close>
  The list is changed while it is iterated. Python's list iterator keeps an index: after
  a removal the next element visited is the one at the following index of the shortened
  list. \<^verbatim>\<open>list.remove\<close> deletes the first element equal to its argument.
\<close>

function remove_loop :: "string \<Rightarrow> nat \<Rightarrow> (string \<times> real) list \<Rightarrow> (string \<times> real) list" where
  "remove_loop sid i xs =
     (if i < length xs then
        (if fst (xs ! i) = sid then remove_loop sid (Suc i) (remove1 (xs ! i) xs)
         else remove_loop sid (Suc i) xs)
      else xs)"
  by pat_completeness auto
termination
  by (relation "measure (\<lambda>(sid, i, xs). length xs - i)") (auto simp: length_remove1)

declare remove_loop.simps [simp del]

definition remove_active_skill :: "string \<Rightarrow> intent_service \<Rightarrow> intent_service" where
  "remove_active_skill sid s = s\<lparr>active_skills := remove_loop sid 0 (active_skills s)\<rparr>"

text \<open>
  \<^verbatim>\<open>
  def add_active_skill(self, skill_id):
      if skill_id != "":
          self.remove_active_skill(skill_id)
          self.active_skills.insert(0, [skill_id, time.time()])
      else:
          LOG.warning("Skill ID was empty, won't add to list of active skills.")
  \<close>
\<close>

definition add_active_skill :: "env \<Rightarrow> string \<Rightarrow> intent_service \<Rightarrow> intent_service" where
  "add_active_skill e sid s =
     (if sid \<noteq> [] then
        (let s1 = remove_active_skill sid s;
             (now, s2) = time_time e s1
         in s2\<lparr>active_skills := (sid, now) # active_skills s2\<rparr>)
      else s\<lparr>logged := logged s @ [LogWarning ''Skill ID was empty, won't add to list of active skills.'']\<rparr>)"


section \<open>The language of a message\<close>

text \<open>
  \<^verbatim>\<open>str.lower()\<close> on the ASCII letters; language codes are ASCII. Calling \<^verbatim>\<open>.lower()\<close>
  on a value that is not a string raises \<^verbatim>\<open>AttributeError\<close>.
\<close>

definition lower_char :: "char \<Rightarrow> char" where
  "lower_char c =
     (let n = (of_char c :: nat) in if 65 \<le> n \<and> n \<le> 90 then char_of (n + 32) else c)"

fun py_lower :: "py_value \<Rightarrow> py_error + string" where
  "py_lower (PStr s) = Inr (map lower_char s)"
| "py_lower v = Inl AttributeError"

text \<open>
  \<^verbatim>\<open>
  def _get_message_lang(message):
      default_lang = Configuration.get().get("lang", "en-us")
      return message.data.get("lang", default_lang).lower()
  \<close>
\<close>

definition get_message_lang :: "env \<Rightarrow> message \<Rightarrow> py_error + string" where
  "get_message_lang e message =
     (let default_lang = dict_get_default (configuration e) ''lang'' (PStr ''en-us'')
      in py_lower (dict_get_default (data message) ''lang'' default_lang))"

text \<open>
  \<^verbatim>\<open>
  def set_default_lf_lang(lang_code="en-us"):
      # return _set_default_lf_lang(lang_code=lang_code)
      return "en-us"
  \<close>
  (\<^verbatim>\<open>source/configuration/locale.py\<close>). The body that would set the library's language
  is commented out: the function returns a constant and changes nothing.
\<close>

definition set_default_lf_lang :: "string \<Rightarrow> intent_service \<Rightarrow> string \<times> intent_service" where
  "set_default_lf_lang lang_code s = (''en-us'', s)"

section \<open>Converse\<close>

text \<open>
  \<^verbatim>\<open>
  def handle_converse_error(self, message):
      skill_id = message.data["skill_id"]
      error_msg = message.data["error"]
      LOG.error("{}: {}".format(skill_id, error_msg))
      if message.data["error"] == "skill id does not exist":
          self.remove_active_skill(skill_id)
  \<close>
  The argument is the reply's data. The registry's ids are strings, so a \<^verbatim>\<open>skill_id\<close>
  of the reply that is not a string equals none of them and removes nothing.
\<close>

definition handle_converse_error :: "py_dict \<Rightarrow> intent_service \<Rightarrow> (py_error + unit) \<times> intent_service" where
  "handle_converse_error d s =
     (case dict_item d ''skill_id'' of
        Inl err \<Rightarrow> (Inl err, s)
      | Inr sk \<Rightarrow>
          (case dict_item d ''error'' of
             Inl err \<Rightarrow> (Inl err, s)
           | Inr error_msg \<Rightarrow>
               (let s1 = s\<lparr>logged := logged s @ [LogError sk error_msg]\<rparr>
                in if error_msg = PStr ''skill id does not exist''
                   then (Inr (), (case sk of PStr sid \<Rightarrow> remove_active_skill sid s1 | _ \<Rightarrow> s1))
                   else (Inr (), s1))))"

text \<open>
  \<^verbatim>\<open>
  def do_converse(self, utterances, skill_id, lang, message):
      converse_msg = message.reply("skill.converse.request",
          {"skill_id": skill_id, "utterances": utterances, "lang": lang})
      result = self.bus.wait_for_response(converse_msg, "skill.converse.response")
      if result and "error" in result.data:
          self.handle_converse_error(result)
          ret = False
      elif result is not None:
          ret = result.data.get("result", False)
      else:
          ret = False
      return ret
  \<close>
  The reply is the answer of the environment to the request with the next number. A
  reply that arrived is a \<^verbatim>\<open>Message\<close> object and so truthy.
\<close>

definition do_converse ::
  "env \<Rightarrow> py_value \<Rightarrow> string \<Rightarrow> string \<Rightarrow> message \<Rightarrow> intent_service \<Rightarrow> (py_error + py_value) \<times> intent_service" where
  "do_converse e utts sid lang message s =
     (let req = \<lparr> req_skill_id = sid, req_utterances = utts, req_lang = lang \<rparr>;
          result = wait_for_response e (length (requests s)) req;
          s1 = s\<lparr>requests := requests s @ [req]\<rparr>
      in case result of
           None \<Rightarrow> (Inr (PBool False), s1)
         | Some d \<Rightarrow>
             if map_of d ''error'' \<noteq> None then
               (case handle_converse_error d s1 of
                  (Inl err, s2) \<Rightarrow> (Inl err, s2)
                | (Inr u, s2) \<Rightarrow> (Inr (PBool False), s2))
             else (Inr (dict_get_default d ''result'' (PBool False)), s1))"

text \<open>
  The list comprehension at the head of \<^verbatim>\<open>_converse\<close>,
  \<^verbatim>\<open>
  [skill for skill in self.active_skills
   if time.time() - skill[1] <= self.converse_timeout * 60]
  \<close>
  reads the clock once for every entry; \<open>n\<close> is the number of the next reading.
\<close>

fun prune :: "env \<Rightarrow> real \<Rightarrow> nat \<Rightarrow> (string \<times> real) list \<Rightarrow> (string \<times> real) list" where
  "prune e t n [] = []"
| "prune e t n (skill # skills) =
     (if clock e n - snd skill \<le> t * 60 then skill # prune e t (Suc n) skills
      else prune e t (Suc n) skills)"

text \<open>
  The loop of \<^verbatim>\<open>_converse\<close> over \<^verbatim>\<open>copy(self.active_skills)\<close>:
  \<^verbatim>\<open>
  for skill in copy(self.active_skills):
      if self.do_converse(utterance, skill[0], lang, message):
          return IntentMatch("Converse", None, None, skill[0])
  return None
  \<close>
  It runs over the copy, so an eviction made by \<^verbatim>\<open>handle_converse_error\<close> does not
  change which skills are asked.
\<close>

fun converse_loop ::
  "env \<Rightarrow> py_value \<Rightarrow> string \<Rightarrow> message \<Rightarrow> (string \<times> real) list \<Rightarrow> intent_service
   \<Rightarrow> (py_error + intent_match option) \<times> intent_service" where
  "converse_loop e utt lang message [] s = (Inr None, s)"
| "converse_loop e utt lang message (skill # skills) s =
     (case do_converse e utt (fst skill) lang message s of
        (Inl err, s1) \<Rightarrow> (Inl err, s1)
      | (Inr ret, s1) \<Rightarrow>
          if truthy ret then
            (Inr (Some \<lparr> intent_service = ''Converse'', intent_type = None,
                         intent_data = None, skill_id = Some (fst skill) \<rparr>), s1)
          else converse_loop e utt lang message skills s1)"

text \<open>
  \<^verbatim>\<open>_converse\<close>: the pruning, the debug line (whose text, the answer of the external
  \<^verbatim>\<open>intent_api.get_active_skills()\<close>, is not followed), and the loop.
\<close>

definition converse ::
  "env \<Rightarrow> py_value \<Rightarrow> string \<Rightarrow> message \<Rightarrow> intent_service \<Rightarrow> (py_error + intent_match option) \<times> intent_service" where
  "converse e utt lang message s =
     (let kept = prune e (converse_timeout s) (clock_reads s) (active_skills s);
          s1 = s\<lparr>active_skills := kept,
                 clock_reads := clock_reads s + length (active_skills s),
                 logged := logged s @ [LogDebug ''skills to handle conversation'']\<rparr>
      in converse_loop e utt lang message kept s1)"

text \<open>
  \<^verbatim>\<open>
  def reset_converse(self, message):
      lang = _get_message_lang(message)
      set_default_lf_lang(lang)
      for skill in copy(self.active_skills):
          self.do_converse(None, skill[0], lang, message)
  \<close>
  is the handler of \<^verbatim>\<open>core.speech.recognition.unknown\<close>.
\<close>

fun reset_loop ::
  "env \<Rightarrow> string \<Rightarrow> message \<Rightarrow> (string \<times> real) list \<Rightarrow> intent_service \<Rightarrow> (py_error + unit) \<times> intent_service" where
  "reset_loop e lang message [] s = (Inr (), s)"
| "reset_loop e lang message (skill # skills) s =
     (case do_converse e PNone (fst skill) lang message s of
        (Inl err, s1) \<Rightarrow> (Inl err, s1)
      | (Inr ret, s1) \<Rightarrow> reset_loop e lang message skills s1)"

definition reset_converse :: "env \<Rightarrow> message \<Rightarrow> intent_service \<Rightarrow> (py_error + unit) \<times> intent_service" where
  "reset_converse e message s =
     (case get_message_lang e message of
        Inl err \<Rightarrow> (Inl err, s)
      | Inr lang \<Rightarrow>
          (let (r, s1) = set_default_lf_lang lang s
           in reset_loop e lang message (active_skills s1) s1))"

section \<open>The dispatch pipeline\<close>

text \<open>
  \<^verbatim>\<open>
  match_funcs = [
      self._converse, padatious_matcher.match_high, self.adapt_service.match_intent,
      self.persona.match, self.fallback.high_prio, padatious_matcher.match_medium,
      self.fallback.medium_prio, padatious_matcher.match_low, self.fallback.low_prio ]
  \<close>
\<close>

definition match_funcs :: "matcher list" where
  "match_funcs = [Converse, PadatiousHigh, Adapt, QA, FallbackHigh, PadatiousMedium,
                  FallbackMedium, PadatiousLow, FallbackLow]"

text \<open>
  One call \<^verbatim>\<open>match_func(utterance, lang, message)\<close>: \<^verbatim>\<open>_converse\<close> is the method above,
  every other matcher is the environment's. The call is recorded in \<open>calls\<close> when it
  returns or raises.
\<close>

definition call_matcher ::
  "env \<Rightarrow> matcher \<Rightarrow> py_value \<Rightarrow> string \<Rightarrow> message \<Rightarrow> intent_service
   \<Rightarrow> (py_error + intent_match option) \<times> intent_service" where
  "call_matcher e f utt lang message s =
     (case (if f = Converse then converse e utt lang message s
            else (match_func e f utt (PStr lang) message, s)) of
        (r, s1) \<Rightarrow> (r, s1\<lparr>calls := calls s1 @ [(f, utt, PStr lang)]\<rparr>))"

text \<open>
  \<^verbatim>\<open>
  match = None
  for match_func in match_funcs:
      match = match_func(utterance, lang, message)
      if match:
          break
  \<close>
  An \<^verbatim>\<open>IntentMatch\<close> is a four-element tuple and so always truthy; only \<^verbatim>\<open>None\<close>
  lets the loop go on. An exception raised by a matcher leaves the loop.
\<close>

fun run_matchers ::
  "env \<Rightarrow> py_value \<Rightarrow> string \<Rightarrow> message \<Rightarrow> matcher list \<Rightarrow> intent_service
   \<Rightarrow> (py_error + intent_match option) \<times> intent_service" where
  "run_matchers e utt lang message [] s = (Inr None, s)"
| "run_matchers e utt lang message (f # fs) s =
     (case call_matcher e f utt lang message s of
        (Inl err, s1) \<Rightarrow> (Inl err, s1)
      | (Inr (Some m), s1) \<Rightarrow> (Inr (Some m), s1)
      | (Inr None, s1) \<Rightarrow> run_matchers e utt lang message fs s1)"

text \<open>\<^verbatim>\<open>message.data.get("utterances", [])[0]\<close>.\<close>

definition first_utterance :: "message \<Rightarrow> py_error + string" where
  "first_utterance message =
     (case utterances message of
        None \<Rightarrow> Inl IndexError
      | Some [] \<Rightarrow> Inl IndexError
      | Some (u # us) \<Rightarrow> Inr u)"

text \<open>
  Modelled from the spec: the class \<^verbatim>\<open>Message\<close> is not among the sources. The targeted
  message carries the match's intent data (an empty payload when the match has none)
  plus the utterance, written by \<^verbatim>\<open>reply.data["utterances"] = utterance\<close>.
\<close>

definition reply_data :: "py_dict option \<Rightarrow> py_dict" where
  "reply_data d = (case d of None \<Rightarrow> [] | Some kv \<Rightarrow> kv)"

text \<open>
  \<^verbatim>\<open>
  def send_complete_intent_failure(self, message):
      self.bus.emit(message.forward("complete_intent_failure"))
  \<close>
\<close>

definition send_complete_intent_failure :: "message \<Rightarrow> intent_service \<Rightarrow> intent_service" where
  "send_complete_intent_failure message s = s\<lparr>emitted := emitted s @ [CompleteIntentFailure]\<rparr>"

text \<open>
  The part of \<^verbatim>\<open>handle_utterance\<close> after the loop:
  \<^verbatim>\<open>
  if match:
      if match.skill_id:
          self.add_active_skill(match.skill_id)
      if match.intent_type:
          reply = message.reply(match.intent_type, match.intent_data)
          reply.data["utterances"] = utterance
          self.bus.emit(reply)
  else:
      self.send_complete_intent_failure(message)
  \<close>
\<close>

definition dispatch :: "env \<Rightarrow> message \<Rightarrow> string \<Rightarrow> intent_match option \<Rightarrow> intent_service \<Rightarrow> intent_service" where
  "dispatch e message utterance match s =
     (case match of
        Some m \<Rightarrow>
          (let s1 = (if truthy_str (skill_id m) then add_active_skill e (the (skill_id m)) s else s)
           in if truthy_str (intent_type m)
              then s1\<lparr>emitted := emitted s1 @
                     [IntentMessage (the (intent_type m))
                        (dict_set (reply_data (intent_data m)) ''utterances'' (PStr utterance))]\<rparr>
              else s1)
      | None \<Rightarrow> send_complete_intent_failure message s)"

text \<open>
  The body of the \<^verbatim>\<open>try\<close> of \<^verbatim>\<open>handle_utterance\<close>. The stopwatch around the loop and
  the construction of the \<^verbatim>\<open>PadatiousMatcher\<close> have no part in what follows.
\<close>

definition handle_utterance_body :: "env \<Rightarrow> message \<Rightarrow> intent_service \<Rightarrow> (py_error + unit) \<times> intent_service" where
  "handle_utterance_body e message s =
     (case get_message_lang e message of
        Inl err \<Rightarrow> (Inl err, s)
      | Inr lang \<Rightarrow>
          (let (r, s1) = set_default_lf_lang lang s
           in case first_utterance message of
                Inl err \<Rightarrow> (Inl err, s1)
              | Inr utterance \<Rightarrow>
                  (case run_matchers e (PStr utterance) lang message match_funcs s1 of
                     (Inl err, s2) \<Rightarrow> (Inl err, s2)
                   | (Inr match, s2) \<Rightarrow> (Inr (), dispatch e message utterance match s2))))"

text \<open>
  \<^verbatim>\<open>handle_utterance\<close>: the body inside
  \<^verbatim>\<open>
  try: ...
  except Exception as err:
      LOG.exception(err)
  \<close>
  What the body did before the exception stays done.
\<close>

definition handle_utterance :: "env \<Rightarrow> message \<Rightarrow> intent_service \<Rightarrow> intent_service" where
  "handle_utterance e message s =
     (case handle_utterance_body e message s of
        (Inl err, s1) \<Rightarrow> s1\<lparr>logged := logged s1 @ [LogException err]\<rparr>
      | (Inr u, s1) \<Rightarrow> s1)"

section \<open>The intent probe\<close>

text \<open>\<^verbatim>\<open>match_func.__name__\<close> of the callables.\<close>

fun handler_name :: "matcher \<Rightarrow> string" where
  "handler_name PadatiousHigh = ''match_high''"
| "handler_name Adapt = ''match_intent''"
| "handler_name PadatiousMedium = ''match_medium''"
| "handler_name PadatiousLow = ''match_low''"
| "handler_name Converse = ''_converse''"
| "handler_name QA = ''match''"
| "handler_name FallbackHigh = ''high_prio''"
| "handler_name FallbackMedium = ''medium_prio''"
| "handler_name FallbackLow = ''low_prio''"

text \<open>
  The list of \<^verbatim>\<open>handle_get_intent\<close>, in which the fallbacks are commented out:
  \<^verbatim>\<open>
  match_funcs = [
      padatious_matcher.match_high,
      self.adapt_service.match_intent,
      # self.fallback.high_prio,
      padatious_matcher.match_medium,
      # self.fallback.medium_prio,
      padatious_matcher.match_low,
      # self.fallback.low_prio
  ]
  \<close>
\<close>

definition probe_funcs :: "matcher list" where
  "probe_funcs = [PadatiousHigh, Adapt, PadatiousMedium, PadatiousLow]"

fun py_of_str_option :: "string option \<Rightarrow> py_value" where
  "py_of_str_option None = PNone"
| "py_of_str_option (Some x) = PStr x"

text \<open>
  The loop of \<^verbatim>\<open>handle_get_intent\<close>:
  \<^verbatim>\<open>
  for match_func in match_funcs:
      match = match_func(utterance, lang, message)
      if match:
          if match.intent_type:
              intent_data = match.intent_data
              intent_data["intent_name"] = match.intent_type
              intent_data["intent_service"] = match.intent_service
              intent_data["skill_id"] = match.skill_id
              intent_data["handler"] = match_func.__name__
              self.bus.emit(message.reply("intent.service.intent.reply",
                                          {"intent": intent_data}))
          return
  self.bus.emit(message.reply("intent.service.intent.reply", {"intent": None}))
  \<close>
  Item assignment on \<^verbatim>\<open>None\<close> raises \<^verbatim>\<open>TypeError\<close>. Each call is recorded in \<open>calls\<close>.
\<close>

fun probe_loop ::
  "env \<Rightarrow> py_value \<Rightarrow> py_value \<Rightarrow> message \<Rightarrow> matcher list \<Rightarrow> intent_service
   \<Rightarrow> (py_error + unit) \<times> intent_service" where
  "probe_loop e utt lang message [] s = (Inr (), s\<lparr>emitted := emitted s @ [IntentReply None]\<rparr>)"
| "probe_loop e utt lang message (f # fs) s =
     (let s1 = s\<lparr>calls := calls s @ [(f, utt, lang)]\<rparr>
      in case match_func e f utt lang message of
           Inl err \<Rightarrow> (Inl err, s1)
         | Inr None \<Rightarrow> probe_loop e utt lang message fs s1
         | Inr (Some m) \<Rightarrow>
             if truthy_str (intent_type m) then
               (case intent_data m of
                  None \<Rightarrow> (Inl TypeError, s1)
                | Some d \<Rightarrow>
                    (let d1 = dict_set d ''intent_name'' (PStr (the (intent_type m)));
                         d2 = dict_set d1 ''intent_service'' (PStr (intent_service m));
                         d3 = dict_set d2 ''skill_id'' (py_of_str_option (skill_id m));
                         d4 = dict_set d3 ''handler'' (PStr (handler_name f))
                     in (Inr (), s1\<lparr>emitted := emitted s1 @ [IntentReply (Some d4)]\<rparr>)))
             else (Inr (), s1))"

text \<open>
  \<^verbatim>\<open>
  def handle_get_intent(self, message):
      utterance = message.data["utterance"]
      lang = message.data.get("lang", "en-us")
      ...
  \<close>
  has no \<^verbatim>\<open>try\<close>: an exception leaves the handler.
\<close>

definition handle_get_intent :: "env \<Rightarrow> message \<Rightarrow> intent_service \<Rightarrow> (py_error + unit) \<times> intent_service" where
  "handle_get_intent e message s =
     (case dict_item (data message) ''utterance'' of
        Inl err \<Rightarrow> (Inl err, s)
      | Inr utterance \<Rightarrow>
          (let lang = dict_get_default (data message) ''lang'' (PStr ''en-us'')
           in probe_loop e utterance lang message probe_funcs s))"

section \<open>Vocabulary and context\<close>

text \<open>
  \<^verbatim>\<open>
  def handle_register_vocab(self, message):
      entity_value = message.data.get("entity_value")
      entity_type = message.data.get("entity_type")
      regex_str = message.data.get("regex")
      alias_of = message.data.get("alias_of")
      self.adapt_service.register_vocabulary(entity_value, entity_type, alias_of, regex_str)
      self.registered_vocab.append(message.data)
  \<close>
  \<open>vocab_args\<close> are the four arguments passed to the Adapt engine. When the engine
  raises, the payload is not appended.
\<close>

definition vocab_args :: "message \<Rightarrow> py_dict" where
  "vocab_args message =
     (let entity_value = dict_get (data message) ''entity_value'';
          entity_type = dict_get (data message) ''entity_type'';
          regex_str = dict_get (data message) ''regex'';
          alias_of = dict_get (data message) ''alias_of''
      in [(''entity_value'', entity_value), (''entity_type'', entity_type),
          (''alias_of'', alias_of), (''regex'', regex_str)])"

definition handle_register_vocab :: "env \<Rightarrow> message \<Rightarrow> intent_service \<Rightarrow> (py_error + unit) \<times> intent_service" where
  "handle_register_vocab e message s =
     (case register_vocabulary e (vocab_args message) of
        Some err \<Rightarrow> (Inl err, s)
      | None \<Rightarrow> (Inr (), s\<lparr>registered_vocab := registered_vocab s @ [data message]\<rparr>))"

text \<open>
  \<^verbatim>\<open>
  def handle_vocab_manifest(self, message):
      self.bus.emit(message.reply("intent.service.adapt.vocab.manifest",
                                  {"vocab": self.registered_vocab}))
  \<close>
\<close>

definition handle_vocab_manifest :: "message \<Rightarrow> intent_service \<Rightarrow> intent_service" where
  "handle_vocab_manifest message s = s\<lparr>emitted := emitted s @ [VocabManifest (registered_vocab s)]\<rparr>"

text \<open>Python's \<^verbatim>\<open>str\<close> of a scalar: decimal digits for an integer.\<close>

fun str_nat :: "nat \<Rightarrow> string" where
  "str_nat n = (if n < 10 then [char_of (48 + n)] else str_nat (n div 10) @ [char_of (48 + n mod 10)])"

declare str_nat.simps [simp del]

definition str_int :: "int \<Rightarrow> string" where
  "str_int i = (if i < 0 then CHR ''-'' # str_nat (nat (- i)) else str_nat (nat i))"

fun py_str :: "py_value \<Rightarrow> string" where
  "py_str PNone = ''None''"
| "py_str (PBool b) = (if b then ''True'' else ''False'')"
| "py_str (PInt i) = str_int i"
| "py_str (PStr x) = x"

text \<open>\<^verbatim>\<open>x or y\<close>.\<close>

definition py_or :: "py_value \<Rightarrow> py_value \<Rightarrow> py_value" where
  "py_or x y = (if truthy x then x else y)"

text \<open>\<^verbatim>\<open>isinstance(word, str)\<close>.\<close>

fun is_str :: "py_value \<Rightarrow> bool" where
  "is_str (PStr x) = True"
| "is_str v = False"

text \<open>
  \<^verbatim>\<open>
  def handle_add_context(self, message):
      entity = {"confidence": 1.0}
      context = message.data.get("context")
      word = message.data.get("word") or ""
      origin = message.data.get("origin") or ""
      # if not a string type try creating a string from it
      if not isinstance(word, str):
          word = str(word)
      entity["data"] = [(word, context)]
      entity["match"] = word
      entity["key"] = word
      entity["origin"] = origin
      self.adapt_service.context_manager.inject_context(entity)
  \<close>
  When \<open>word\<close> is a string it is kept, which is what \<open>py_str\<close> of a string gives.
\<close>

definition add_context_entity :: "message \<Rightarrow> context_entity" where
  "add_context_entity message =
     (let context = dict_get (data message) ''context'';
          word0 = py_or (dict_get (data message) ''word'') (PStr '''');
          origin = py_or (dict_get (data message) ''origin'') (PStr '''');
          word = (if \<not> is_str word0 then py_str word0 else py_str word0)
      in \<lparr> confidence = 1.0, entity_data = [(word, context)], entity_match = word,
           entity_key = word, entity_origin = origin \<rparr>)"

definition handle_add_context :: "message \<Rightarrow> intent_service \<Rightarrow> intent_service" where
  "handle_add_context message s = s\<lparr>injected := injected s @ [add_context_entity message]\<rparr>"

section \<open>What the claims speak of\<close>

text \<open>
  The notions of the specification, written from its words, against which the handlers
  are compared.

  A converse reply counts as handled when it arrived, carries no error field and its
  result field is truthy.
\<close>

definition handled :: "py_dict option \<Rightarrow> bool" where
  "handled r = (case r of None \<Rightarrow> False
                | Some d \<Rightarrow> map_of d ''error'' = None \<and> truthy (dict_get_default d ''result'' (PBool False)))"

text \<open>The reply to the \<open>n\<close>-th request, when it asks skill \<open>sid\<close>.\<close>

definition converse_reply :: "env \<Rightarrow> py_value \<Rightarrow> string \<Rightarrow> nat \<Rightarrow> string \<Rightarrow> py_dict option" where
  "converse_reply e utt lang n sid =
     wait_for_response e n \<lparr> req_skill_id = sid, req_utterances = utt, req_lang = lang \<rparr>"

text \<open>
  Going through the entries from the front, each asked with the next request number:
  the first skill whose reply is handled, and the skills asked (up to and including it).
\<close>

fun first_handler :: "env \<Rightarrow> py_value \<Rightarrow> string \<Rightarrow> nat \<Rightarrow> (string \<times> real) list \<Rightarrow> string option" where
  "first_handler e utt lang n [] = None"
| "first_handler e utt lang n (skill # skills) =
     (if handled (converse_reply e utt lang n (fst skill)) then Some (fst skill)
      else first_handler e utt lang (Suc n) skills)"

fun asked :: "env \<Rightarrow> py_value \<Rightarrow> string \<Rightarrow> nat \<Rightarrow> (string \<times> real) list \<Rightarrow> string list" where
  "asked e utt lang n [] = []"
| "asked e utt lang n (skill # skills) =
     fst skill # (if handled (converse_reply e utt lang n (fst skill)) then []
                  else asked e utt lang (Suc n) skills)"

text \<open>The match the specification gives for a handled converse.\<close>

definition converse_match :: "string \<Rightarrow> intent_match" where
  "converse_match sid = \<lparr> intent_service = ''Converse'', intent_type = None,
                          intent_data = None, skill_id = Some sid \<rparr>"

text \<open>
  The replies of the skill manager that report an error name the skill
  (\<^verbatim>\<open>_emit_converse_error\<close> sends \<^verbatim>\<open>dict(skill_id=skill_id, error=error_msg)\<close>).
\<close>

definition names_skill :: "env \<Rightarrow> bool" where
  "names_skill e =
     (\<forall>n req d. wait_for_response e n req = Some d \<longrightarrow> map_of d ''error'' \<noteq> None
        \<longrightarrow> map_of d ''skill_id'' \<noteq> None)"

text \<open>
  What each matcher of the chain answers for an utterance event that finds the service
  in state \<open>s\<close>: Converse is \<^verbatim>\<open>_converse\<close> run in \<open>s\<close>, the others are the environment's.
\<close>

definition outcome ::
  "env \<Rightarrow> py_value \<Rightarrow> string \<Rightarrow> message \<Rightarrow> intent_service \<Rightarrow> matcher \<Rightarrow> py_error + intent_match option" where
  "outcome e utt lang message s f =
     (if f = Converse then fst (converse e utt lang message s)
      else match_func e f utt (PStr lang) message)"

text \<open>
  First match wins: the answer of the first matcher, in the order of the list, that
  answers anything but "no match", and the matchers tried on the way (up to and
  including that one).
\<close>

fun first_match :: "(matcher \<Rightarrow> py_error + intent_match option) \<Rightarrow> matcher list \<Rightarrow> py_error + intent_match option" where
  "first_match out [] = Inr None"
| "first_match out (f # fs) = (if out f = Inr None then first_match out fs else out f)"

fun tried :: "(matcher \<Rightarrow> py_error + intent_match option) \<Rightarrow> matcher list \<Rightarrow> matcher list" where
  "tried out [] = []"
| "tried out (f # fs) = f # (if out f = Inr None then tried out fs else [])"

text \<open>
  A sequence of \<^verbatim>\<open>register_vocab\<close> messages, each handled by \<open>handle_register_vocab\<close>
  (the bus goes on to the next message when a handler raises).
\<close>

fun register_all :: "env \<Rightarrow> message list \<Rightarrow> intent_service \<Rightarrow> intent_service" where
  "register_all e [] s = s"
| "register_all e (m # ms) s = register_all e ms (snd (handle_register_vocab e m s))"

text \<open>
  What the probe publishes, from the specification's words: nothing when a matcher
  raised, a null intent when no matcher matched, else the answer for the first match:
  its intent data with the intent name, the service, the skill and the name of the
  matching callable written into it, when the match has an intent type (and data to
  write into), and nothing when it has none.
\<close>

definition probe_answer :: "matcher \<Rightarrow> intent_match \<Rightarrow> bus_message list" where
  "probe_answer f m =
     (if truthy_str (intent_type m) then
        (case intent_data m of
           None \<Rightarrow> []
         | Some d \<Rightarrow>
             [IntentReply (Some
                (dict_set (dict_set (dict_set (dict_set d
                   ''intent_name'' (PStr (the (intent_type m))))
                   ''intent_service'' (PStr (intent_service m)))
                   ''skill_id'' (py_of_str_option (skill_id m)))
                   ''handler'' (PStr (handler_name f))))])
      else [])"

definition probe_published :: "(matcher \<Rightarrow> py_error + intent_match option) \<Rightarrow> matcher list \<Rightarrow> bus_message list" where
  "probe_published out fs =
     (case first_match out fs of
        Inl err \<Rightarrow> []
      | Inr None \<Rightarrow> [IntentReply None]
      | Inr (Some m) \<Rightarrow> probe_answer (last (tried out fs)) m)"

section \<open>Example environments and events\<close>

text \<open>
  Concrete environments on which the theorems below are run. In \<open>quiet_env\<close> the clock
  starts at 1000 seconds and advances by one second per reading, no skill answers a
  converse request, no matcher matches, and the Adapt engine accepts every registration.
\<close>

definition quiet_env :: env where
  "quiet_env = \<lparr> clock = (\<lambda>n. 1000 + real n),
                  wait_for_response = (\<lambda>n req. None),
                  match_func = (\<lambda>f utt lang message. Inr None),
                  register_vocabulary = (\<lambda>d. None),
                  configuration = [(''lang'', PStr ''en-us'')] \<rparr>"

text \<open>The messages published between two states of the service.\<close>

definition is_intent_message :: "bus_message \<Rightarrow> bool" where
  "is_intent_message b = (case b of IntentMessage t d \<Rightarrow> True | _ \<Rightarrow> False)"

definition published :: "intent_service \<Rightarrow> intent_service \<Rightarrow> bus_message list" where
  "published s s' = drop (length (emitted s)) (emitted s')"

text \<open>
  An utterance event in US English with two alternatives; a match by Adapt for it; an
  environment in which only Adapt matches, and one in which the high-confidence Padatious
  matcher raises while Adapt would match.
\<close>

definition weather_match :: intent_match where
  "weather_match = \<lparr> intent_service = ''Adapt'', intent_type = Some ''weather.intent'',
                      intent_data = Some [(''location'', PStr ''here'')],
                      skill_id = Some ''weather-skill'' \<rparr>"

definition weather_event :: message where
  "weather_event = \<lparr> msg_type = ''recognizer_loop:utterance'', data = [(''lang'', PStr ''en-US'')],
                      utterances = Some [''weather today'', ''whether today''], msg_context = [] \<rparr>"

definition adapt_env :: env where
  "adapt_env = quiet_env\<lparr> match_func :=
       (\<lambda>f utt lang message. if f = Adapt then Inr (Some weather_match) else Inr None) \<rparr>"

definition raising_env :: env where
  "raising_env = quiet_env\<lparr> match_func :=
       (\<lambda>f utt lang message. if f = PadatiousHigh then Inl (ExternalError ''boom'')
                              else if f = Adapt then Inr (Some weather_match) else Inr None) \<rparr>"

text \<open>
  A service in which \<open>timer-skill\<close> was activated ten seconds before the clock's first
  reading, and an environment in which that skill accepts every converse request while
  the high-confidence Padatious matcher would match too.
\<close>

definition timer_state :: intent_service where
  "timer_state = init\<lparr> active_skills := [(''timer-skill'', 990)] \<rparr>"

definition high_match :: intent_match where
  "high_match = \<lparr> intent_service = ''Padatious'', intent_type = Some ''timer.intent'',
                   intent_data = Some [], skill_id = Some ''other-skill'' \<rparr>"

definition both_env :: env where
  "both_env = quiet_env\<lparr>
       wait_for_response := (\<lambda>n req. if req_skill_id req = ''timer-skill''
                                        then Some [(''skill_id'', PStr ''timer-skill''), (''result'', PBool True)]
                                        else None),
       match_func := (\<lambda>f utt lang message. if f = PadatiousHigh then Inr (Some high_match) else Inr None) \<rparr>"

text \<open>
  A service with two active skills, \<open>gone-skill\<close> activated last, and an environment in
  which the skill manager no longer knows \<open>gone-skill\<close> while \<open>timer-skill\<close> accepts.
\<close>

definition gone_state :: intent_service where
  "gone_state = init\<lparr> active_skills := [(''gone-skill'', 995), (''timer-skill'', 990)] \<rparr>"

definition gone_env :: env where
  "gone_env = quiet_env\<lparr>
       wait_for_response := (\<lambda>n req.
          if req_skill_id req = ''gone-skill''
          then Some [(''skill_id'', PStr ''gone-skill''), (''error'', PStr ''skill id does not exist'')]
          else if req_skill_id req = ''timer-skill''
          then Some [(''skill_id'', PStr ''timer-skill''), (''result'', PBool True)]
          else None) \<rparr>"

text \<open>
  Registration messages and a manifest query; a service whose only active skill was
  activated at time 0, a thousand seconds before the clock's first reading; a
  recognition-failure notification; an \<^verbatim>\<open>add_context\<close> message whose word is the number 0.
\<close>

definition vocab_message :: "string \<Rightarrow> string \<Rightarrow> message" where
  "vocab_message v t = \<lparr> msg_type = ''register_vocab'',
        data = [(''entity_value'', PStr v), (''entity_type'', PStr t)],
        utterances = None, msg_context = [] \<rparr>"

definition manifest_query :: message where
  "manifest_query = \<lparr> msg_type = ''intent.service.adapt.vocab.manifest.get'', data = [],
        utterances = None, msg_context = [] \<rparr>"

definition expired_state :: intent_service where
  "expired_state = init\<lparr> active_skills := [(''timer-skill'', 0)] \<rparr>"

definition recognition_failed :: message where
  "recognition_failed = \<lparr> msg_type = ''core.speech.recognition.unknown'', data = [],
        utterances = None, msg_context = [] \<rparr>"

definition add_context_zero :: message where
  "add_context_zero = \<lparr> msg_type = ''add_context'',
        data = [(''context'', PStr ''weather''), (''word'', PInt 0)],
        utterances = None, msg_context = [] \<rparr>"

text \<open>
  An utterance event in German and one without a language; an environment whose configured
  language is British English; a match without an intent type, an environment in which
  the high-confidence Padatious matcher returns it, and a probe query.
\<close>

definition german_event :: message where
  "german_event = \<lparr> msg_type = ''recognizer_loop:utterance'', data = [(''lang'', PStr ''de-DE'')],
                     utterances = Some [''wie ist das wetter''], msg_context = [] \<rparr>"

definition plain_event :: message where
  "plain_event = \<lparr> msg_type = ''recognizer_loop:utterance'', data = [],
                    utterances = Some [''weather today''], msg_context = [] \<rparr>"

definition british_env :: env where
  "british_env = quiet_env\<lparr> configuration := [(''lang'', PStr ''en-GB'')] \<rparr>"




section \<open>Properties of the active-skill registry\<close>

lemma remove_loop_absent:
  "\<forall>e\<in>set xs. fst e \<noteq> sid \<Longrightarrow> remove_loop sid i xs = xs"
proof (induction sid i xs rule: remove_loop.induct)
  case (1 sid i xs)
  show ?case
  proof (cases "i < length xs")
    case True
    with "1.prems" have "fst (xs ! i) \<noteq> sid" by simp
    with True "1.IH"(2) "1.prems" show ?thesis
      by (simp add: remove_loop.simps [of sid i xs])
  next
    case False
    then show ?thesis by (simp add: remove_loop.simps [of sid i xs])
  qed
qed

lemma filter_absent: "\<forall>e\<in>set xs. fst e \<noteq> sid \<Longrightarrow> filter (\<lambda>x. fst x \<noteq> sid) xs = xs"
  by (induction xs) auto

lemma remove1_distinct_key:
  "distinct (map fst xs) \<Longrightarrow> e \<in> set xs \<Longrightarrow> fst e = sid \<Longrightarrow>
   remove1 e xs = filter (\<lambda>x. fst x \<noteq> sid) xs"
proof (induction xs)
  case Nil
  then show ?case by simp
next
  case (Cons x xs)
  show ?case
  proof (cases "x = e")
    case True
    from Cons.prems(1) have "fst x \<notin> fst ` set xs" by simp
    then have "\<forall>y\<in>set xs. fst y \<noteq> fst x" by (metis imageI)
    with True Cons.prems(3) have "\<forall>y\<in>set xs. fst y \<noteq> sid" by simp
    with True Cons.prems show ?thesis by (simp add: filter_absent)
  next
    case False
    with Cons.prems have "e \<in> set xs" by simp
    from Cons.prems(1) have "fst x \<notin> fst ` set xs" by simp
    with \<open>e \<in> set xs\<close> Cons.prems(3) have "fst x \<noteq> sid" by (metis imageI)
    with Cons False \<open>e \<in> set xs\<close> show ?thesis by simp
  qed
qed

lemma remove_loop_filter_from:
  "distinct (map fst xs) \<Longrightarrow> \<forall>e\<in>set (take i xs). fst e \<noteq> sid \<Longrightarrow>
   remove_loop sid i xs = filter (\<lambda>x. fst x \<noteq> sid) xs"
proof (induction sid i xs rule: remove_loop.induct)
  case (1 sid i xs)
  show ?case
  proof (cases "i < length xs")
    case False
    with "1.prems" show ?thesis
      by (simp add: remove_loop.simps [of sid i xs] filter_absent)
  next
    case inb: True
    show ?thesis
    proof (cases "fst (xs ! i) = sid")
      case True
      have r: "remove1 (xs ! i) xs = filter (\<lambda>x. fst x \<noteq> sid) xs"
        using "1.prems"(1) inb True by (intro remove1_distinct_key) auto
      have "remove_loop sid (Suc i) (filter (\<lambda>x. fst x \<noteq> sid) xs) = filter (\<lambda>x. fst x \<noteq> sid) xs"
        by (rule remove_loop_absent) simp
      with inb True r show ?thesis by (simp add: remove_loop.simps [of sid i xs])
    next
      case False
      with inb "1.prems"(2) have "\<forall>e\<in>set (take (Suc i) xs). fst e \<noteq> sid"
        by (auto simp: take_Suc_conv_app_nth)
      with "1.IH"(2) inb False "1.prems"(1)
      have "remove_loop sid (Suc i) xs = filter (\<lambda>x. fst x \<noteq> sid) xs" by simp
      with inb False show ?thesis by (simp add: remove_loop.simps [of sid i xs])
    qed
  qed
qed

lemma remove_loop_filter:
  "distinct (map fst xs) \<Longrightarrow> remove_loop sid 0 xs = filter (\<lambda>x. fst x \<noteq> sid) xs"
  by (rule remove_loop_filter_from) simp_all

lemma remove_loop_subseq: "set (remove_loop sid i xs) \<subseteq> set xs"
proof (induction sid i xs rule: remove_loop.induct)
  case (1 sid i xs)
  show ?case
  proof (cases "i < length xs")
    case False
    then show ?thesis by (simp add: remove_loop.simps [of sid i xs])
  next
    case inb: True
    show ?thesis
    proof (cases "fst (xs ! i) = sid")
      case True
      with "1.IH"(1) inb have "set (remove_loop sid (Suc i) (remove1 (xs ! i) xs)) \<subseteq> set (remove1 (xs ! i) xs)" by simp
      also have "\<dots> \<subseteq> set xs" by (rule set_remove1_subset)
      finally show ?thesis using inb True by (simp add: remove_loop.simps [of sid i xs])
    next
      case False
      with "1.IH"(2) inb show ?thesis by (simp add: remove_loop.simps [of sid i xs])
    qed
  qed
qed


lemma distinct_filter_keys: "distinct (map fst xs) \<Longrightarrow> distinct (map fst (filter P xs))"
  by (induction xs) auto

lemma prune_filter_subset: "set (prune e t n xs) \<subseteq> set xs"
  by (induction xs arbitrary: n) auto

lemma distinct_prune: "distinct (map fst xs) \<Longrightarrow> distinct (map fst (prune e t n xs))"
proof (induction xs arbitrary: n)
  case Nil
  then show ?case by simp
next
  case (Cons x xs)
  have "fst ` set (prune e t (Suc n) xs) \<subseteq> fst ` set xs"
    using prune_filter_subset by (rule image_mono)
  with Cons show ?case by auto
qed

lemma active_skills_remove:
  "distinct (map fst (active_skills s)) \<Longrightarrow>
   active_skills (remove_active_skill sid s) = filter (\<lambda>x. fst x \<noteq> sid) (active_skills s)"
  by (simp add: remove_active_skill_def remove_loop_filter)

lemma active_skills_add:
  "distinct (map fst (active_skills s)) \<Longrightarrow> sid \<noteq> [] \<Longrightarrow>
   active_skills (add_active_skill e sid s) =
     (sid, clock e (clock_reads s)) # filter (\<lambda>x. fst x \<noteq> sid) (active_skills s)"
  by (simp add: add_active_skill_def remove_active_skill_def time_time_def remove_loop_filter)

lemma distinct_remove:
  "distinct (map fst (active_skills s)) \<Longrightarrow> distinct (map fst (active_skills (remove_active_skill sid s)))"
  by (simp add: active_skills_remove distinct_filter_keys)

lemma distinct_add:
  "distinct (map fst (active_skills s)) \<Longrightarrow> distinct (map fst (active_skills (add_active_skill e sid s)))"
proof (cases "sid = []")
  case True
  assume "distinct (map fst (active_skills s))"
  with True show ?thesis by (simp add: add_active_skill_def)
next
  case False
  assume d: "distinct (map fst (active_skills s))"
  with False show ?thesis by (auto simp: active_skills_add distinct_filter_keys)
qed

section \<open>Properties of converse and of the dispatch pipeline\<close>

lemma remove_active_skill_frame [simp]:
  "requests (remove_active_skill sid s) = requests s"
  "emitted (remove_active_skill sid s) = emitted s"
  "calls (remove_active_skill sid s) = calls s"
  "logged (remove_active_skill sid s) = logged s"
  "clock_reads (remove_active_skill sid s) = clock_reads s"
  "lf_lang (remove_active_skill sid s) = lf_lang s"
  "registered_vocab (remove_active_skill sid s) = registered_vocab s"
  "converse_timeout (remove_active_skill sid s) = converse_timeout s"
  "injected (remove_active_skill sid s) = injected s"
  by (simp_all add: remove_active_skill_def)

lemma handle_converse_error_frame:
  "handle_converse_error d s = (r, s') \<Longrightarrow>
   requests s' = requests s \<and> emitted s' = emitted s \<and> calls s' = calls s
   \<and> clock_reads s' = clock_reads s \<and> lf_lang s' = lf_lang s
   \<and> registered_vocab s' = registered_vocab s \<and> converse_timeout s' = converse_timeout s
   \<and> injected s' = injected s"
  by (auto simp: handle_converse_error_def Let_def split: sum.splits if_splits py_value.splits)

lemma do_converse_frame:
  "do_converse e utt sid lang message s = (r, s') \<Longrightarrow>
   requests s' = requests s @ [\<lparr> req_skill_id = sid, req_utterances = utt, req_lang = lang \<rparr>]
   \<and> emitted s' = emitted s \<and> calls s' = calls s
   \<and> clock_reads s' = clock_reads s \<and> lf_lang s' = lf_lang s
   \<and> registered_vocab s' = registered_vocab s \<and> converse_timeout s' = converse_timeout s
   \<and> injected s' = injected s"
  by (auto simp: do_converse_def Let_def split: option.splits if_splits prod.splits sum.splits
           dest!: handle_converse_error_frame)

lemma handle_converse_error_ok:
  "map_of d ''error'' \<noteq> None \<Longrightarrow> map_of d ''skill_id'' \<noteq> None \<Longrightarrow>
   fst (handle_converse_error d s) = Inr ()"
  by (auto simp: handle_converse_error_def dict_item_def Let_def)

lemma do_converse_result:
  assumes "names_skill e"
  shows "\<exists>ret. fst (do_converse e utt sid lang message s) = Inr ret
           \<and> truthy ret = handled (converse_reply e utt lang (length (requests s)) sid)"
proof (cases "converse_reply e utt lang (length (requests s)) sid")
  case None
  then show ?thesis by (simp add: do_converse_def converse_reply_def handled_def)
next
  case (Some d)
  show ?thesis
  proof (cases "map_of d ''error'' = None")
    case True
    with Some show ?thesis by (simp add: do_converse_def converse_reply_def handled_def)
  next
    case False
    with Some assms have "map_of d ''skill_id'' \<noteq> None"
      unfolding names_skill_def converse_reply_def by blast
    with False have "fst (handle_converse_error d (s\<lparr>requests := requests s @ [\<lparr> req_skill_id = sid, req_utterances = utt, req_lang = lang \<rparr>]\<rparr>)) = Inr ()"
      by (rule handle_converse_error_ok)
    with Some False show ?thesis
      by (auto simp: do_converse_def converse_reply_def handled_def Let_def split: prod.splits sum.splits)
  qed
qed

lemma converse_loop_result:
  assumes "names_skill e"
  shows "fst (converse_loop e utt lang message skills s) =
           Inr (map_option converse_match (first_handler e utt lang (length (requests s)) skills))
       \<and> requests (snd (converse_loop e utt lang message skills s)) =
           requests s @ map (\<lambda>sid. \<lparr> req_skill_id = sid, req_utterances = utt, req_lang = lang \<rparr>)
                            (asked e utt lang (length (requests s)) skills)"
proof (induction skills arbitrary: s)
  case Nil
  show ?case by simp
next
  case (Cons skill skills)
  obtain r s1 where dc: "do_converse e utt (fst skill) lang message s = (r, s1)"
    by (cases "do_converse e utt (fst skill) lang message s")
  from do_converse_result [OF assms, of utt "fst skill" lang message s] dc
  obtain ret where r: "r = Inr ret"
    and t: "truthy ret = handled (converse_reply e utt lang (length (requests s)) (fst skill))"
    by auto
  from do_converse_frame [OF dc]
  have rq: "requests s1 = requests s @ [\<lparr> req_skill_id = fst skill, req_utterances = utt, req_lang = lang \<rparr>]"
    by simp
  show ?case
  proof (cases "truthy ret")
    case True
    with dc r t rq show ?thesis by (simp add: converse_match_def)
  next
    case False
    with dc r t rq Cons.IH [of s1] show ?thesis by simp
  qed
qed



lemma converse_loop_frame:
  "converse_loop e utt lang message skills s = (r, s') \<Longrightarrow>
   emitted s' = emitted s \<and> calls s' = calls s \<and> clock_reads s' = clock_reads s
   \<and> lf_lang s' = lf_lang s \<and> registered_vocab s' = registered_vocab s
   \<and> converse_timeout s' = converse_timeout s \<and> injected s' = injected s"
proof (induction skills arbitrary: s)
  case Nil
  then show ?case by simp
next
  case (Cons skill skills)
  obtain r1 s1 where dc: "do_converse e utt (fst skill) lang message s = (r1, s1)"
    by (cases "do_converse e utt (fst skill) lang message s")
  note fr = do_converse_frame [OF dc]
  show ?case
  proof (cases r1)
    case (Inl err)
    with dc Cons.prems fr show ?thesis by auto
  next
    case (Inr ret)
    show ?thesis
    proof (cases "truthy ret")
      case True
      with Inr dc Cons.prems fr show ?thesis by auto
    next
      case False
      with Inr dc Cons.prems have "converse_loop e utt lang message skills s1 = (r, s')" by simp
      from Cons.IH [OF this] fr show ?thesis by simp
    qed
  qed
qed

lemma converse_frame:
  "converse e utt lang message s = (r, s') \<Longrightarrow>
   emitted s' = emitted s \<and> calls s' = calls s \<and> lf_lang s' = lf_lang s
   \<and> registered_vocab s' = registered_vocab s \<and> converse_timeout s' = converse_timeout s
   \<and> injected s' = injected s"
  unfolding converse_def Let_def by (drule converse_loop_frame) simp

lemma first_match_cong:
  "\<forall>f\<in>set fs. out f = out' f \<Longrightarrow> first_match out fs = first_match out' fs"
  by (induction fs) auto

lemma tried_cong:
  "\<forall>f\<in>set fs. out f = out' f \<Longrightarrow> tried out fs = tried out' fs"
  by (induction fs) auto


lemma first_match_None_iff:
  "first_match out fs = Inr None \<longleftrightarrow> (\<forall>f\<in>set fs. out f = Inr None)"
  by (induction fs) auto

lemma first_match_tried:
  "first_match out fs \<noteq> Inr None \<Longrightarrow>
   tried out fs \<noteq> [] \<and> out (last (tried out fs)) = first_match out fs
   \<and> (\<forall>f\<in>set (butlast (tried out fs)). out f = Inr None)"
  by (induction fs) (auto split: if_splits)


lemma run_matchers_ext:
  "Converse \<notin> set fs \<Longrightarrow>
   run_matchers e utt lang message fs s =
     (first_match (\<lambda>f. match_func e f utt (PStr lang) message) fs,
      s\<lparr>calls := calls s @ map (\<lambda>f. (f, utt, PStr lang))
                               (tried (\<lambda>f. match_func e f utt (PStr lang) message) fs)\<rparr>)"
proof (induction fs arbitrary: s)
  case Nil
  show ?case by simp
next
  case (Cons f fs)
  then have nf: "f \<noteq> Converse" and nfs: "Converse \<notin> set fs" by auto
  show ?case
  proof (cases "match_func e f utt (PStr lang) message")
    case (Inl err)
    with nf show ?thesis by (simp add: call_matcher_def)
  next
    case (Inr mo)
    show ?thesis
    proof (cases mo)
      case None
      with Inr nf Cons.IH [OF nfs] show ?thesis by (simp add: call_matcher_def)
    next
      case (Some m)
      with Inr nf show ?thesis by (simp add: call_matcher_def)
    qed
  qed
qed

lemma run_matchers_converse_none:
  "converse e utt lang message s = (Inr None, sc) \<Longrightarrow>
   run_matchers e utt lang message (Converse # fs) s =
     run_matchers e utt lang message fs (sc\<lparr>calls := calls sc @ [(Converse, utt, PStr lang)]\<rparr>)"
  by (simp add: call_matcher_def)

lemma run_matchers_converse_stop:
  "converse e utt lang message s = (rc, sc) \<Longrightarrow> rc \<noteq> Inr None \<Longrightarrow>
   run_matchers e utt lang message (Converse # fs) s =
     (rc, sc\<lparr>calls := calls sc @ [(Converse, utt, PStr lang)]\<rparr>)"
  by (cases rc) (auto simp: call_matcher_def split: option.splits)

lemma run_matchers_chain:
  assumes "converse e utt lang message s = (rc, sc)"
  shows "run_matchers e utt lang message match_funcs s =
           (first_match (outcome e utt lang message s) match_funcs,
            sc\<lparr>calls := calls s @ map (\<lambda>f. (f, utt, PStr lang))
                                      (tried (outcome e utt lang message s) match_funcs)\<rparr>)"
proof -
  let ?ext = "[PadatiousHigh, Adapt, QA, FallbackHigh, PadatiousMedium, FallbackMedium, PadatiousLow, FallbackLow]"
  let ?mf = "\<lambda>f. match_func e f utt (PStr lang) message"
  let ?out = "outcome e utt lang message s"
  have cs: "calls sc = calls s" using converse_frame [OF assms] by simp
  have oc: "?out Converse = rc" using assms by (simp add: outcome_def)
  have "\<forall>f\<in>set ?ext. ?out f = ?mf f" by (simp add: outcome_def)
  then have fm: "first_match ?out ?ext = first_match ?mf ?ext"
    and tr: "tried ?out ?ext = tried ?mf ?ext"
    by (rule first_match_cong, rule tried_cong)
  have ext: "run_matchers e utt lang message ?ext s' =
     (first_match ?mf ?ext, s'\<lparr>calls := calls s' @ map (\<lambda>f. (f, utt, PStr lang)) (tried ?mf ?ext)\<rparr>)" for s'
    by (rule run_matchers_ext) simp
  have mfs: "match_funcs = Converse # ?ext" by (simp add: match_funcs_def)
  show ?thesis
  proof (cases "rc = Inr None")
    case False
    from run_matchers_converse_stop [OF assms False, of ?ext] False oc cs
    show ?thesis unfolding mfs by simp
  next
    case True
    with assms have "converse e utt lang message s = (Inr None, sc)" by simp
    from run_matchers_converse_none [OF this, of ?ext]
    have "run_matchers e utt lang message (Converse # ?ext) s =
          run_matchers e utt lang message ?ext (sc\<lparr>calls := calls sc @ [(Converse, utt, PStr lang)]\<rparr>)" .
    also have "\<dots> = (first_match ?mf ?ext,
         sc\<lparr>calls := calls s @ (Converse, utt, PStr lang) # map (\<lambda>f. (f, utt, PStr lang)) (tried ?mf ?ext)\<rparr>)"
      unfolding ext using cs by simp
    finally show ?thesis
      unfolding mfs using True oc fm tr by simp
  qed
qed

lemma add_active_skill_frame [simp]:
  "emitted (add_active_skill e sid s) = emitted s"
  "calls (add_active_skill e sid s) = calls s"
  "requests (add_active_skill e sid s) = requests s"
  "lf_lang (add_active_skill e sid s) = lf_lang s"
  "registered_vocab (add_active_skill e sid s) = registered_vocab s"
  by (simp_all add: add_active_skill_def time_time_def Let_def)

lemma dispatch_calls [simp]: "calls (dispatch e message u match s) = calls s"
  by (simp add: dispatch_def send_complete_intent_failure_def Let_def split: option.splits)

lemma dispatch_lf_lang [simp]: "lf_lang (dispatch e message u match s) = lf_lang s"
  by (simp add: dispatch_def send_complete_intent_failure_def Let_def split: option.splits)

lemma dispatch_emitted:
  "emitted (dispatch e message u match s) = emitted s @
     (case match of
        None \<Rightarrow> [CompleteIntentFailure]
      | Some m \<Rightarrow> if truthy_str (intent_type m)
                  then [IntentMessage (the (intent_type m))
                          (dict_set (reply_data (intent_data m)) ''utterances'' (PStr u))]
                  else [])"
  by (simp add: dispatch_def send_complete_intent_failure_def Let_def split: option.splits)

lemma handle_utterance_body_eq:
  assumes "get_message_lang e message = Inr lang" and "utterances message = Some (u # us)"
  shows "handle_utterance_body e message s =
     (let out = outcome e (PStr u) lang message s;
          s2 = (snd (converse e (PStr u) lang message s))
                 \<lparr>calls := calls s @ map (\<lambda>f. (f, PStr u, PStr lang)) (tried out match_funcs)\<rparr>
      in case first_match out match_funcs of
           Inl err \<Rightarrow> (Inl err, s2)
         | Inr match \<Rightarrow> (Inr (), dispatch e message u match s2))"
proof -
  obtain rc sc where c: "converse e (PStr u) lang message s = (rc, sc)"
    by (cases "converse e (PStr u) lang message s")
  from run_matchers_chain [OF c] c assms show ?thesis
    by (simp add: handle_utterance_body_def set_default_lf_lang_def first_utterance_def Let_def
             split: sum.splits)
qed

lemma handle_utterance_no_utterance:
  "first_utterance message = Inl err \<Longrightarrow> get_message_lang e message = Inr lang \<Longrightarrow>
   handle_utterance e message s = s\<lparr>logged := logged s @ [LogException err]\<rparr>"
  by (simp add: handle_utterance_def handle_utterance_body_def set_default_lf_lang_def)

lemma lang_weather: "get_message_lang both_env weather_event = Inr ''en-us''"
  by code_simp

lemma conv_timer: "fst (converse both_env (PStr ''weather today'') ''en-us'' weather_event timer_state) = Inr (Some (converse_match ''timer-skill''))"
  by (simp add: converse_def timer_state_def init_def both_env_def quiet_env_def do_converse_def
        dict_get_default_def converse_match_def)



lemma published_append [simp]: "published s (s'\<lparr>emitted := emitted s @ new\<rparr>) = new"
  by (simp add: published_def)

lemma lang_weather_adapt: "get_message_lang adapt_env weather_event = Inr ''en-us''"
  by code_simp

lemma lang_weather_quiet: "get_message_lang quiet_env weather_event = Inr ''en-us''"
  by code_simp

lemma lang_weather_raising: "get_message_lang raising_env weather_event = Inr ''en-us''"
  by code_simp

lemma converse_init:
  "converse e utt lang message init =
     (Inr None, init\<lparr>logged := [LogDebug ''skills to handle conversation'']\<rparr>)"
  by (simp add: converse_def init_def)

text \<open>
  C2, as stated, fails: "never neither" does not hold. With \<open>timer-skill\<close> active and
  accepting the converse request, \<open>handle_utterance\<close> completes without an exception,
  Converse is the matcher that returned a result, and neither an intent message nor a
  failure message is published: the Converse match has no intent type.
\<close>

theorem converse_match_publishes_neither:
  "fst (handle_utterance_body both_env weather_event timer_state) = Inr ()
   \<and> outcome both_env (PStr ''weather today'') ''en-us'' weather_event timer_state Converse
       = Inr (Some (converse_match ''timer-skill''))
   \<and> emitted timer_state = []
   \<and> emitted (handle_utterance both_env weather_event timer_state) = []
   \<and> published timer_state (handle_utterance both_env weather_event timer_state) = []"
proof -
  have u: "utterances weather_event = Some (''weather today'' # [''whether today''])"
    by (simp add: weather_event_def)
  let ?o = "outcome both_env (PStr ''weather today'') ''en-us'' weather_event timer_state"
  obtain rc sc where c: "converse both_env (PStr ''weather today'') ''en-us'' weather_event timer_state = (rc, sc)"
    by (cases "converse both_env (PStr ''weather today'') ''en-us'' weather_event timer_state")
  have oc: "?o Converse = Inr (Some (converse_match ''timer-skill''))"
    by (simp add: outcome_def conv_timer)
  then have fm: "first_match ?o match_funcs = Inr (Some (converse_match ''timer-skill''))"
    by (simp add: match_funcs_def)
  have e0: "emitted timer_state = []" by (simp add: timer_state_def init_def)
  from converse_frame [OF c] e0 have esc: "emitted sc = []" by simp
  have body: "fst (handle_utterance_body both_env weather_event timer_state) = Inr ()"
    unfolding handle_utterance_body_eq [OF lang_weather u] using fm by (simp add: Let_def)
  have em: "emitted (handle_utterance both_env weather_event timer_state) = []"
    unfolding handle_utterance_def handle_utterance_body_eq [OF lang_weather u]
    using fm c esc by (simp add: Let_def dispatch_emitted converse_match_def)
  from body oc e0 em show ?thesis by (simp add: published_def)
qed

text \<open>
  C2, amended. When \<open>handle_utterance\<close> completes without an exception, what it published is
  either at most one targeted intent message and no failure message, or exactly one
  \<open>complete_intent_failure\<close> message and no intent message; never both, and nothing else.
  The failure message is published (once) exactly when every matcher of the chain answered
  "no match". When a matcher matched, exactly one intent message is published when the
  match names an intent type, and nothing is published when it names none (as for
  Converse).
\<close>

theorem handle_utterance_publishes_once:
  assumes "get_message_lang e message = Inr lang" and "utterances message = Some (u # us)"
    and "fst (handle_utterance_body e message s) = Inr ()"
  shows "(let out = outcome e (PStr u) lang message s;
              new = published s (handle_utterance e message s);
              intents = filter is_intent_message new;
              failures = filter (\<lambda>b. b = CompleteIntentFailure) new
          in emitted (handle_utterance e message s) = emitted s @ new
           \<and> length intents \<le> 1 \<and> length failures \<le> 1
           \<and> \<not> (intents \<noteq> [] \<and> failures \<noteq> [])
           \<and> new = intents @ failures
           \<and> (length failures = 1 \<longleftrightarrow> (\<forall>f\<in>set match_funcs. out f = Inr None))
           \<and> (first_match out match_funcs = Inr None \<longrightarrow> new = [CompleteIntentFailure])
           \<and> (\<forall>m. first_match out match_funcs = Inr (Some m) \<longrightarrow>
                 new = (if truthy_str (intent_type m)
                        then [IntentMessage (the (intent_type m))
                                (dict_set (reply_data (intent_data m)) ''utterances'' (PStr u))]
                        else [])))"
proof -
  let ?out = "outcome e (PStr u) lang message s"
  let ?s2 = "(snd (converse e (PStr u) lang message s))
                 \<lparr>calls := calls s @ map (\<lambda>f. (f, PStr u, PStr lang)) (tried ?out match_funcs)\<rparr>"
  note body = handle_utterance_body_eq [OF assms(1,2), of s]
  obtain rc sc where c: "converse e (PStr u) lang message s = (rc, sc)"
    by (cases "converse e (PStr u) lang message s")
  have em2: "emitted ?s2 = emitted s" using converse_frame [OF c] c by simp
  from assms(3) obtain match where fm: "first_match ?out match_funcs = Inr match"
    unfolding body by (auto simp: Let_def split: sum.splits)
  have hu: "handle_utterance e message s = dispatch e message u match ?s2"
    unfolding handle_utterance_def body using fm by (simp add: Let_def)
  have em: "emitted (handle_utterance e message s) = emitted s @
     (case match of
        None \<Rightarrow> [CompleteIntentFailure]
      | Some m \<Rightarrow> if truthy_str (intent_type m)
                  then [IntentMessage (the (intent_type m))
                          (dict_set (reply_data (intent_data m)) ''utterances'' (PStr u))]
                  else [])"
    unfolding hu dispatch_emitted em2 ..
  have none_iff: "match = None \<longleftrightarrow> (\<forall>f\<in>set match_funcs. ?out f = Inr None)"
    using first_match_None_iff [of ?out match_funcs] fm by simp
  show ?thesis
  proof (cases match)
    case None
    with em have "published s (handle_utterance e message s) = [CompleteIntentFailure]"
      by (simp add: published_def)
    with em None none_iff fm show ?thesis
      by (simp add: Let_def is_intent_message_def)
  next
    case (Some m)
    with em have "published s (handle_utterance e message s) =
        (if truthy_str (intent_type m)
         then [IntentMessage (the (intent_type m))
                 (dict_set (reply_data (intent_data m)) ''utterances'' (PStr u))]
         else [])"
      by (simp add: published_def)
    with em Some none_iff fm show ?thesis
      by (simp add: Let_def is_intent_message_def)
  qed
qed

theorem handle_utterance_publishes_once_witness:
  "get_message_lang adapt_env weather_event = Inr ''en-us''
   \<and> utterances weather_event = Some [''weather today'', ''whether today'']
   \<and> fst (handle_utterance_body adapt_env weather_event init) = Inr ()
   \<and> emitted (handle_utterance adapt_env weather_event init) =
        [IntentMessage ''weather.intent''
           [(''location'', PStr ''here''), (''utterances'', PStr ''weather today'')]]
   \<and> get_message_lang quiet_env weather_event = Inr ''en-us''
   \<and> fst (handle_utterance_body quiet_env weather_event init) = Inr ()
   \<and> emitted (handle_utterance quiet_env weather_event init) = [CompleteIntentFailure]"
proof -
  have u: "utterances weather_event = Some (''weather today'' # [''whether today''])"
    by (simp add: weather_event_def)
  let ?oa = "outcome adapt_env (PStr ''weather today'') ''en-us'' weather_event init"
  let ?oq = "outcome quiet_env (PStr ''weather today'') ''en-us'' weather_event init"
  have fa: "first_match ?oa match_funcs = Inr (Some weather_match)"
    by (simp add: match_funcs_def outcome_def converse_init adapt_env_def)
  have fq: "first_match ?oq match_funcs = Inr None"
    by (simp add: match_funcs_def outcome_def converse_init quiet_env_def)
  have ba: "fst (handle_utterance_body adapt_env weather_event init) = Inr ()"
    unfolding handle_utterance_body_eq [OF lang_weather_adapt u] using fa by (simp add: Let_def)
  have bq: "fst (handle_utterance_body quiet_env weather_event init) = Inr ()"
    unfolding handle_utterance_body_eq [OF lang_weather_quiet u] using fq by (simp add: Let_def)
  have e0: "emitted init = []" by (simp add: init_def)
  from handle_utterance_publishes_once [OF lang_weather_adapt u ba] fa e0
  have "emitted (handle_utterance adapt_env weather_event init) =
        [IntentMessage ''weather.intent''
           [(''location'', PStr ''here''), (''utterances'', PStr ''weather today'')]]"
    by (simp add: Let_def weather_match_def reply_data_def dict_set_def)
  moreover
  from handle_utterance_publishes_once [OF lang_weather_quiet u bq] fq e0
  have "emitted (handle_utterance quiet_env weather_event init) = [CompleteIntentFailure]"
    by (simp add: Let_def)
  ultimately show ?thesis using lang_weather_adapt lang_weather_quiet u ba bq by simp
qed

text \<open>
  C3, as stated, fails: an exception raised by one matcher is not caught at that matcher.
  In \<open>raising_env\<close> the high-confidence Padatious matcher raises and Adapt would match:
  only Converse and Padatious high are called, nothing is published, and the exception is
  logged by the handler of the whole of \<open>handle_utterance\<close>.
\<close>

theorem matcher_exception_not_skipped:
  "outcome raising_env (PStr ''weather today'') ''en-us'' weather_event init PadatiousHigh
     = Inl (ExternalError ''boom'')
   \<and> outcome raising_env (PStr ''weather today'') ''en-us'' weather_event init Adapt
     = Inr (Some weather_match)
   \<and> calls (handle_utterance raising_env weather_event init) =
       [(Converse, PStr ''weather today'', PStr ''en-us''),
        (PadatiousHigh, PStr ''weather today'', PStr ''en-us'')]
   \<and> emitted (handle_utterance raising_env weather_event init) = []
   \<and> logged (handle_utterance raising_env weather_event init) =
       [LogDebug ''skills to handle conversation'', LogException (ExternalError ''boom'')]"
proof -
  have u: "utterances weather_event = Some (''weather today'' # [''whether today''])"
    by (simp add: weather_event_def)
  let ?o = "outcome raising_env (PStr ''weather today'') ''en-us'' weather_event init"
  have f: "first_match ?o match_funcs = Inl (ExternalError ''boom'')"
    and t: "tried ?o match_funcs = [Converse, PadatiousHigh]"
    by (simp_all add: match_funcs_def outcome_def converse_init raising_env_def)
  have "handle_utterance raising_env weather_event init =
     init\<lparr>logged := [LogDebug ''skills to handle conversation''],
          calls := [(Converse, PStr ''weather today'', PStr ''en-us''),
                    (PadatiousHigh, PStr ''weather today'', PStr ''en-us'')],
          logged := [LogDebug ''skills to handle conversation'', LogException (ExternalError ''boom'')]\<rparr>"
    unfolding handle_utterance_def handle_utterance_body_eq [OF lang_weather_raising u]
    using f t by (simp add: Let_def converse_init) (simp add: init_def)
  then show ?thesis
    by (simp add: outcome_def raising_env_def) (simp add: init_def)
qed

text \<open>
  C3, amended. When a matcher of the chain raises, the exception leaves the loop and is
  caught by the one \<open>try\<close> around \<open>handle_utterance\<close>, which logs it: the raising
  matcher is the last one called (every matcher before it answered "no match", none
  after it is tried), neither an intent message nor a failure message is published, and
  the registry is as \<open>_converse\<close> left it.
\<close>

theorem matcher_exception_aborts:
  assumes "get_message_lang e message = Inr lang" and "utterances message = Some (u # us)"
    and "first_match (outcome e (PStr u) lang message s) match_funcs = Inl err"
  shows "(let out = outcome e (PStr u) lang message s;
              sc = snd (converse e (PStr u) lang message s)
          in out (last (tried out match_funcs)) = Inl err
           \<and> (\<forall>f\<in>set (butlast (tried out match_funcs)). out f = Inr None)
           \<and> calls (handle_utterance e message s) =
               calls s @ map (\<lambda>f. (f, PStr u, PStr lang)) (tried out match_funcs)
           \<and> emitted (handle_utterance e message s) = emitted s
           \<and> logged (handle_utterance e message s) = logged sc @ [LogException err]
           \<and> active_skills (handle_utterance e message s) = active_skills sc)"
proof -
  let ?out = "outcome e (PStr u) lang message s"
  obtain rc sc where c: "converse e (PStr u) lang message s = (rc, sc)"
    by (cases "converse e (PStr u) lang message s")
  note fr = converse_frame [OF c]
  from assms(3) have ne: "first_match ?out match_funcs \<noteq> Inr None" by simp
  note ft = first_match_tried [OF ne]
  have hu: "handle_utterance e message s =
      sc\<lparr>calls := calls s @ map (\<lambda>f. (f, PStr u, PStr lang)) (tried ?out match_funcs),
         logged := logged sc @ [LogException err]\<rparr>"
    unfolding handle_utterance_def handle_utterance_body_eq [OF assms(1,2)]
    using assms(3) c by (simp add: Let_def)
  show ?thesis
    unfolding Let_def hu using ft assms(3) c fr by simp
qed

theorem matcher_exception_aborts_witness:
  "get_message_lang raising_env weather_event = Inr ''en-us''
   \<and> utterances weather_event = Some [''weather today'', ''whether today'']
   \<and> first_match (outcome raising_env (PStr ''weather today'') ''en-us'' weather_event init) match_funcs
       = Inl (ExternalError ''boom'')
   \<and> map fst (calls (handle_utterance raising_env weather_event init)) = [Converse, PadatiousHigh]
   \<and> emitted (handle_utterance raising_env weather_event init) = []"
proof -
  have u: "utterances weather_event = Some (''weather today'' # [''whether today''])"
    by (simp add: weather_event_def)
  let ?o = "outcome raising_env (PStr ''weather today'') ''en-us'' weather_event init"
  have f: "first_match ?o match_funcs = Inl (ExternalError ''boom'')"
    and t: "tried ?o match_funcs = [Converse, PadatiousHigh]"
    by (simp_all add: match_funcs_def outcome_def converse_init raising_env_def)
  from matcher_exception_aborts [OF lang_weather_raising u f] t
  have "calls (handle_utterance raising_env weather_event init) =
          calls init @ map (\<lambda>f. (f, PStr ''weather today'', PStr ''en-us'')) [Converse, PadatiousHigh]
      \<and> emitted (handle_utterance raising_env weather_event init) = emitted init"
    by (simp add: Let_def)
  with lang_weather_raising u f show ?thesis by (simp add: init_def)
qed

lemma first_handler_None_iff:
  "first_handler e utt lang n skills = None \<longleftrightarrow>
     (\<forall>k<length skills. \<not> handled (converse_reply e utt lang (n + k) (fst (skills ! k))))"
proof (induction skills arbitrary: n)
  case Nil
  show ?case by simp
next
  case (Cons skill skills)
  show ?case
  proof (cases "handled (converse_reply e utt lang n (fst skill))")
    case True
    then have "\<not> (\<forall>k<length (skill # skills). \<not> handled (converse_reply e utt lang (n + k) (fst ((skill # skills) ! k))))"
      by (auto intro: exI [of _ 0])
    with True show ?thesis by simp
  next
    case False
    have "(\<forall>k<length (skill # skills). \<not> handled (converse_reply e utt lang (n + k) (fst ((skill # skills) ! k))))
        \<longleftrightarrow> (\<forall>k<length skills. \<not> handled (converse_reply e utt lang (Suc n + k) (fst (skills ! k))))"
      using False by (auto simp: less_Suc_eq_0_disj)
    with False Cons.IH [of "Suc n"] show ?thesis by simp
  qed
qed

lemma first_handler_Some:
  "first_handler e utt lang n skills = Some sid \<Longrightarrow>
   \<exists>k<length skills. sid = fst (skills ! k)
      \<and> handled (converse_reply e utt lang (n + k) sid)
      \<and> (\<forall>j<k. \<not> handled (converse_reply e utt lang (n + j) (fst (skills ! j))))"
proof (induction skills arbitrary: n)
  case Nil
  then show ?case by simp
next
  case (Cons skill skills)
  show ?case
  proof (cases "handled (converse_reply e utt lang n (fst skill))")
    case True
    with Cons.prems have "sid = fst skill" by simp
    with True have "0 < length (skill # skills) \<and> sid = fst ((skill # skills) ! 0)
      \<and> handled (converse_reply e utt lang (n + 0) sid)
      \<and> (\<forall>j<0. \<not> handled (converse_reply e utt lang (n + j) (fst ((skill # skills) ! j))))"
      by simp
    then show ?thesis by blast
  next
    case False
    with Cons.prems have "first_handler e utt lang (Suc n) skills = Some sid" by simp
    from Cons.IH [OF this] obtain k where k: "k < length skills" "sid = fst (skills ! k)"
      "handled (converse_reply e utt lang (Suc n + k) sid)"
      "\<forall>j<k. \<not> handled (converse_reply e utt lang (Suc n + j) (fst (skills ! j)))"
      by blast
    have "\<forall>j<Suc k. \<not> handled (converse_reply e utt lang (n + j) (fst ((skill # skills) ! j)))"
      using False k(4) by (auto simp: less_Suc_eq_0_disj)
    with k have "Suc k < length (skill # skills) \<and> sid = fst ((skill # skills) ! Suc k)
      \<and> handled (converse_reply e utt lang (n + Suc k) sid)
      \<and> (\<forall>j<Suc k. \<not> handled (converse_reply e utt lang (n + j) (fst ((skill # skills) ! j))))"
      by simp
    then show ?thesis by blast
  qed
qed

lemma do_converse_error:
  assumes "converse_reply e utt lang (length (requests t)) sid = Some d"
    and "map_of d ''error'' = Some err" and "map_of d ''skill_id'' = Some (PStr k)"
  shows "do_converse e utt sid lang message t =
     (Inr (PBool False),
      t\<lparr>requests := requests t @ [\<lparr> req_skill_id = sid, req_utterances = utt, req_lang = lang \<rparr>],
        logged := logged t @ [LogError (PStr k) err],
        active_skills := (if err = PStr ''skill id does not exist''
                          then remove_loop k 0 (active_skills t) else active_skills t)\<rparr>)"
  using assms
  by (simp add: do_converse_def converse_reply_def handle_converse_error_def dict_item_def
        remove_active_skill_def Let_def)

lemma do_converse_no_error:
  assumes "converse_reply e utt lang (length (requests t)) sid = r"
    and "r = None \<or> (\<exists>d. r = Some d \<and> map_of d ''error'' = None)"
  shows "\<exists>ret. do_converse e utt sid lang message t =
     (Inr ret, t\<lparr>requests := requests t @ [\<lparr> req_skill_id = sid, req_utterances = utt, req_lang = lang \<rparr>]\<rparr>)
     \<and> truthy ret = handled r"
  using assms
  by (auto simp: do_converse_def converse_reply_def handled_def Let_def)

text \<open>
  C4. When error replies name their skill (as the skill manager's do), \<open>_converse\<close>
  asks the entries left after pruning from the front of the registry, the most recently
  activated first, one request each, and stops at the first reply that is handled (no
  error field, truthy result): the result is then the match with service \<open>Converse\<close>, no
  intent type, no intent data and that skill's id; when no reply is handled every entry
  was asked and the result is \<open>None\<close>. A reply with an error field is logged and not
  handled, and the skill it names is removed from the registry exactly when the error is
  \<open>skill id does not exist\<close>. A timeout or a reply without an error field changes nothing
  in the registry and is handled only when its result is truthy.
\<close>

theorem converse_round_trip:
  assumes "names_skill e"
  shows "(let skills = prune e (converse_timeout s) (clock_reads s) (active_skills s);
              n = length (requests s);
              request = (\<lambda>sid. \<lparr> req_skill_id = sid, req_utterances = utt, req_lang = lang \<rparr>)
          in fst (converse e utt lang message s) =
               Inr (map_option converse_match (first_handler e utt lang n skills))
           \<and> requests (snd (converse e utt lang message s)) =
               requests s @ map request (asked e utt lang n skills)
           \<and> (\<exists>j\<le>length skills. asked e utt lang n skills = take j (map fst skills))
           \<and> (first_handler e utt lang n skills = None \<longleftrightarrow>
                (\<forall>j<length skills. \<not> handled (converse_reply e utt lang (n + j) (fst (skills ! j)))))
           \<and> (\<forall>sid. first_handler e utt lang n skills = Some sid \<longrightarrow>
                (\<exists>j<length skills. sid = fst (skills ! j)
                   \<and> handled (converse_reply e utt lang (n + j) sid)
                   \<and> (\<forall>i<j. \<not> handled (converse_reply e utt lang (n + i) (fst (skills ! i))))))
           \<and> (\<forall>t sid d err k.
                 converse_reply e utt lang (length (requests t)) sid = Some d
                 \<and> map_of d ''error'' = Some err \<and> map_of d ''skill_id'' = Some (PStr k)
                 \<and> distinct (map fst (active_skills t)) \<longrightarrow>
                 do_converse e utt sid lang message t =
                   (Inr (PBool False),
                    t\<lparr>requests := requests t @ [request sid],
                      logged := logged t @ [LogError (PStr k) err],
                      active_skills := (if err = PStr ''skill id does not exist''
                                        then filter (\<lambda>x. fst x \<noteq> k) (active_skills t)
                                        else active_skills t)\<rparr>))
           \<and> (\<forall>t sid r.
                 converse_reply e utt lang (length (requests t)) sid = r
                 \<and> (r = None \<or> (\<exists>d. r = Some d \<and> map_of d ''error'' = None)) \<longrightarrow>
                 (\<exists>ret. do_converse e utt sid lang message t =
                          (Inr ret, t\<lparr>requests := requests t @ [request sid]\<rparr>)
                        \<and> truthy ret = handled r)))"
proof -
  let ?skills = "prune e (converse_timeout s) (clock_reads s) (active_skills s)"
  let ?s1 = "s\<lparr>active_skills := ?skills,
               clock_reads := clock_reads s + length (active_skills s),
               logged := logged s @ [LogDebug ''skills to handle conversation'']\<rparr>"
  have c: "converse e utt lang message s = converse_loop e utt lang message ?skills ?s1"
    by (simp add: converse_def Let_def)
  note lp = converse_loop_result [OF assms, of utt lang message ?skills ?s1]
  have p1: "fst (converse e utt lang message s) =
               Inr (map_option converse_match (first_handler e utt lang (length (requests s)) ?skills))"
    and p2: "requests (snd (converse e utt lang message s)) =
               requests s @ map (\<lambda>sid. \<lparr> req_skill_id = sid, req_utterances = utt, req_lang = lang \<rparr>)
                 (asked e utt lang (length (requests s)) ?skills)"
    using lp unfolding c by simp_all
  have p3: "\<exists>j\<le>length skills. asked e utt lang n skills = take j (map fst skills)" for n skills
  proof (induction skills arbitrary: n)
    case Nil
    show ?case by simp
  next
    case (Cons skill skills)
    from Cons [of "Suc n"] obtain j where j: "j \<le> length skills"
      "asked e utt lang (Suc n) skills = take j (map fst skills)" by blast
    show ?case
    proof (cases "handled (converse_reply e utt lang n (fst skill))")
      case True
      then have "Suc 0 \<le> length (skill # skills)
        \<and> asked e utt lang n (skill # skills) = take (Suc 0) (map fst (skill # skills))" by simp
      then show ?thesis by blast
    next
      case False
      with j have "Suc j \<le> length (skill # skills)
        \<and> asked e utt lang n (skill # skills) = take (Suc j) (map fst (skill # skills))" by simp
      then show ?thesis by blast
    qed
  qed
  note p4 = first_handler_None_iff [of e utt lang "length (requests s)" ?skills]
  have p5: "\<forall>sid. first_handler e utt lang (length (requests s)) ?skills = Some sid \<longrightarrow>
                (\<exists>j<length ?skills. sid = fst (?skills ! j)
                   \<and> handled (converse_reply e utt lang (length (requests s) + j) sid)
                   \<and> (\<forall>i<j. \<not> handled (converse_reply e utt lang (length (requests s) + i) (fst (?skills ! i)))))"
    using first_handler_Some [of e utt lang "length (requests s)" ?skills] by blast
  have p6: "\<forall>t sid d err k.
                 converse_reply e utt lang (length (requests t)) sid = Some d
                 \<and> map_of d ''error'' = Some err \<and> map_of d ''skill_id'' = Some (PStr k)
                 \<and> distinct (map fst (active_skills t)) \<longrightarrow>
                 do_converse e utt sid lang message t =
                   (Inr (PBool False),
                    t\<lparr>requests := requests t @ [\<lparr> req_skill_id = sid, req_utterances = utt, req_lang = lang \<rparr>],
                      logged := logged t @ [LogError (PStr k) err],
                      active_skills := (if err = PStr ''skill id does not exist''
                                        then filter (\<lambda>x. fst x \<noteq> k) (active_skills t)
                                        else active_skills t)\<rparr>)"
    by (auto simp: do_converse_error remove_loop_filter)
  have p7: "\<forall>t sid r.
                 converse_reply e utt lang (length (requests t)) sid = r
                 \<and> (r = None \<or> (\<exists>d. r = Some d \<and> map_of d ''error'' = None)) \<longrightarrow>
                 (\<exists>ret. do_converse e utt sid lang message t =
                          (Inr ret, t\<lparr>requests := requests t @ [\<lparr> req_skill_id = sid, req_utterances = utt, req_lang = lang \<rparr>]\<rparr>)
                        \<and> truthy ret = handled r)"
    using do_converse_no_error [of e utt lang _ _ _ message] by blast
  from p1 p2 p3 [of ?skills "length (requests s)"] p4 p5 p6 p7
  show ?thesis unfolding Let_def by blast
qed

lemma names_skill_gone: "names_skill gone_env"
  by (auto simp: names_skill_def gone_env_def quiet_env_def split: if_splits)

theorem converse_round_trip_witness:
  "names_skill gone_env
   \<and> fst (converse gone_env (PStr ''stop'') ''en-us'' weather_event gone_state) =
       Inr (Some \<lparr> intent_service = ''Converse'', intent_type = None, intent_data = None,
                    skill_id = Some ''timer-skill'' \<rparr>)
   \<and> map req_skill_id (requests (snd (converse gone_env (PStr ''stop'') ''en-us'' weather_event gone_state)))
       = [''gone-skill'', ''timer-skill'']"
proof -
  have pr: "prune gone_env (converse_timeout gone_state) (clock_reads gone_state) (active_skills gone_state)
            = [(''gone-skill'', 995), (''timer-skill'', 990)]"
    by (simp add: gone_state_def init_def gone_env_def quiet_env_def)
  have rq: "requests gone_state = []" by (simp add: gone_state_def init_def)
  have h1: "\<not> handled (converse_reply gone_env (PStr ''stop'') ''en-us'' 0 ''gone-skill'')"
    by (simp add: handled_def converse_reply_def gone_env_def)
  have h2: "handled (converse_reply gone_env (PStr ''stop'') ''en-us'' (Suc 0) ''timer-skill'')"
    by (simp add: handled_def converse_reply_def gone_env_def dict_get_default_def)
  from converse_round_trip [OF names_skill_gone, where s = gone_state and utt = "PStr ''stop''"
      and lang = "''en-us''" and message = weather_event]
  have "fst (converse gone_env (PStr ''stop'') ''en-us'' weather_event gone_state) =
          Inr (map_option converse_match
                 (first_handler gone_env (PStr ''stop'') ''en-us'' 0 [(''gone-skill'', 995), (''timer-skill'', 990)]))
      \<and> requests (snd (converse gone_env (PStr ''stop'') ''en-us'' weather_event gone_state)) =
          map (\<lambda>sid. \<lparr> req_skill_id = sid, req_utterances = PStr ''stop'', req_lang = ''en-us'' \<rparr>)
              (asked gone_env (PStr ''stop'') ''en-us'' 0 [(''gone-skill'', 995), (''timer-skill'', 990)])"
    unfolding Let_def pr rq by simp
  with h1 h2 names_skill_gone show ?thesis by (simp add: converse_match_def)
qed

section \<open>Expiry of active skills\<close>

lemma prune_kept:
  "x \<in> set (prune e t n xs) \<Longrightarrow> \<exists>k<length xs. x = xs ! k \<and> clock e (n + k) - snd x \<le> t * 60"
proof (induction xs arbitrary: n)
  case Nil
  then show ?case by simp
next
  case (Cons y ys)
  show ?case
  proof (cases "x = y \<and> clock e n - snd y \<le> t * 60")
    case True
    then have "0 < length (y # ys) \<and> x = (y # ys) ! 0 \<and> clock e (n + 0) - snd x \<le> t * 60" by simp
    then show ?thesis by blast
  next
    case False
    with Cons.prems have "x \<in> set (prune e t (Suc n) ys)" by (auto split: if_splits)
    from Cons.IH [OF this] obtain k where "k < length ys" "x = ys ! k" "clock e (Suc n + k) - snd x \<le> t * 60"
      by blast
    then have "Suc k < length (y # ys) \<and> x = (y # ys) ! Suc k \<and> clock e (n + Suc k) - snd x \<le> t * 60"
      by simp
    then show ?thesis by blast
  qed
qed

lemma converse_loop_requests:
  "converse_loop e utt lang message skills s = (r, s') \<Longrightarrow>
   \<exists>rs. requests s' = requests s @ rs \<and> req_skill_id ` set rs \<subseteq> fst ` set skills
      \<and> (\<forall>q\<in>set rs. req_lang q = lang \<and> req_utterances q = utt)"
proof (induction skills arbitrary: s)
  case Nil
  then show ?case by simp
next
  case (Cons skill skills)
  obtain r1 s1 where dc: "do_converse e utt (fst skill) lang message s = (r1, s1)"
    by (cases "do_converse e utt (fst skill) lang message s")
  from do_converse_frame [OF dc]
  have rq: "requests s1 = requests s @ [\<lparr> req_skill_id = fst skill, req_utterances = utt, req_lang = lang \<rparr>]"
    by simp
  show ?case
  proof (cases "\<exists>ret. r1 = Inr ret \<and> \<not> truthy ret")
    case False
    with dc Cons.prems have "s' = s1" by (cases r1) (auto split: if_splits)
    with rq have "requests s' = requests s @ [\<lparr> req_skill_id = fst skill, req_utterances = utt, req_lang = lang \<rparr>]
      \<and> req_skill_id ` set [\<lparr> req_skill_id = fst skill, req_utterances = utt, req_lang = lang \<rparr>] \<subseteq> fst ` set (skill # skills)
      \<and> (\<forall>q\<in>set [\<lparr> req_skill_id = fst skill, req_utterances = utt, req_lang = lang \<rparr>]. req_lang q = lang \<and> req_utterances q = utt)"
      by simp
    then show ?thesis by blast
  next
    case True
    with dc Cons.prems have "converse_loop e utt lang message skills s1 = (r, s')" by auto
    from Cons.IH [OF this] obtain rs where rs: "requests s' = requests s1 @ rs"
      "req_skill_id ` set rs \<subseteq> fst ` set skills"
      "\<forall>q\<in>set rs. req_lang q = lang \<and> req_utterances q = utt" by blast
    let ?q = "\<lparr> req_skill_id = fst skill, req_utterances = utt, req_lang = lang \<rparr>"
    from rs rq have "requests s' = requests s @ (?q # rs)
      \<and> req_skill_id ` set (?q # rs) \<subseteq> fst ` set (skill # skills)
      \<and> (\<forall>q\<in>set (?q # rs). req_lang q = lang \<and> req_utterances q = utt)"
      by auto
    then show ?thesis by blast
  qed
qed

lemma converse_requests:
  assumes "converse e utt lang message s = (r, s')"
  shows "\<exists>rs. requests s' = requests s @ rs
      \<and> req_skill_id ` set rs \<subseteq> fst ` set (prune e (converse_timeout s) (clock_reads s) (active_skills s))
      \<and> (\<forall>q\<in>set rs. req_lang q = lang \<and> req_utterances q = utt)"
  using assms unfolding converse_def Let_def by (drule_tac converse_loop_requests) simp

lemma converse_asks_only_unexpired:
  assumes "converse e utt lang message s = (r, s')"
    and "q \<in> set (drop (length (requests s)) (requests s'))"
  shows "\<exists>k<length (active_skills s). req_skill_id q = fst (active_skills s ! k)
           \<and> clock e (clock_reads s + k) - snd (active_skills s ! k) \<le> converse_timeout s * 60"
proof -
  from converse_requests [OF assms(1)] obtain rs where rs: "requests s' = requests s @ rs"
    "req_skill_id ` set rs \<subseteq> fst ` set (prune e (converse_timeout s) (clock_reads s) (active_skills s))"
    by blast
  with assms(2) have "req_skill_id q \<in> fst ` set (prune e (converse_timeout s) (clock_reads s) (active_skills s))"
    by auto
  then obtain x where x: "x \<in> set (prune e (converse_timeout s) (clock_reads s) (active_skills s))"
    "req_skill_id q = fst x" by auto
  from prune_kept [OF x(1)] x(2) show ?thesis by auto
qed

lemma add_active_skill_lf [simp]:
  "converse_timeout (add_active_skill e sid s) = converse_timeout s"
  "injected (add_active_skill e sid s) = injected s"
  by (simp_all add: add_active_skill_def time_time_def Let_def)

lemma dispatch_requests [simp]: "requests (dispatch e message u match s) = requests s"
  by (simp add: dispatch_def send_complete_intent_failure_def Let_def split: option.splits)

lemma dispatch_registered_vocab [simp]:
  "registered_vocab (dispatch e message u match s) = registered_vocab s"
  by (simp add: dispatch_def send_complete_intent_failure_def Let_def split: option.splits)

lemma handle_utterance_lang_error:
  "get_message_lang e message = Inl err \<Longrightarrow>
   handle_utterance e message s = s\<lparr>logged := logged s @ [LogException err]\<rparr>"
  by (simp add: handle_utterance_def handle_utterance_body_def)

lemma first_utterance_cases:
  "(\<exists>err. first_utterance message = Inl err) \<or> (\<exists>u us. utterances message = Some (u # us))"
  by (auto simp: first_utterance_def split: option.splits list.splits)

lemma handle_utterance_state:
  assumes "get_message_lang e message = Inr lang" and "utterances message = Some (u # us)"
  shows "\<exists>s2 match err. (handle_utterance e message s = dispatch e message u match s2
                          \<or> handle_utterance e message s = s2\<lparr>logged := logged s2 @ [LogException err]\<rparr>)
         \<and> s2 = (snd (converse e (PStr u) lang message s))
                 \<lparr>calls := calls s @ map (\<lambda>f. (f, PStr u, PStr lang))
                     (tried (outcome e (PStr u) lang message s) match_funcs)\<rparr>"
  unfolding handle_utterance_def handle_utterance_body_eq [OF assms]
  by (cases "first_match (outcome e (PStr u) lang message s) match_funcs") (auto simp: Let_def)

lemma handle_utterance_lf_lang: "lf_lang (handle_utterance e message s) = lf_lang s"
proof (cases "get_message_lang e message")
  case (Inl err)
  then show ?thesis by (simp add: handle_utterance_lang_error)
next
  case (Inr lang)
  from first_utterance_cases [of message] show ?thesis
  proof
    assume "\<exists>err. first_utterance message = Inl err"
    with Inr show ?thesis by (auto simp: handle_utterance_no_utterance)
  next
    assume "\<exists>u us. utterances message = Some (u # us)"
    then obtain u us where u: "utterances message = Some (u # us)" by blast
    obtain rc sc where c: "converse e (PStr u) lang message s = (rc, sc)"
      by (cases "converse e (PStr u) lang message s")
    from handle_utterance_state [OF Inr u, of s] converse_frame [OF c] c
    show ?thesis by auto
  qed
qed

lemma handle_utterance_registered_vocab:
  "registered_vocab (handle_utterance e message s) = registered_vocab s"
proof (cases "get_message_lang e message")
  case (Inl err)
  then show ?thesis by (simp add: handle_utterance_lang_error)
next
  case (Inr lang)
  from first_utterance_cases [of message] show ?thesis
  proof
    assume "\<exists>err. first_utterance message = Inl err"
    with Inr show ?thesis by (auto simp: handle_utterance_no_utterance)
  next
    assume "\<exists>u us. utterances message = Some (u # us)"
    then obtain u us where u: "utterances message = Some (u # us)" by blast
    obtain rc sc where c: "converse e (PStr u) lang message s = (rc, sc)"
      by (cases "converse e (PStr u) lang message s")
    from handle_utterance_state [OF Inr u, of s] converse_frame [OF c] c
    show ?thesis by auto
  qed
qed

text \<open>
  C5 holds for \<open>_converse\<close> (\<open>converse_asks_only_unexpired\<close> above: every skill it asks
  passed the age test when the registry was pruned at its start) but not for the pass
  that a recognition-failure notification triggers. \<open>reset_converse\<close> does not prune:
  with a skill activated at time 0 and the clock at 1000 seconds, past the timeout of 600
  seconds, it sends the skill a converse request and leaves it in the registry, where
  \<open>_converse\<close> in the same state asks nobody and drops the entry.
\<close>

theorem reset_converse_asks_expired_skill:
  "active_skills expired_state = [(''timer-skill'', 0)]
   \<and> clock quiet_env (clock_reads expired_state) - 0 > converse_timeout expired_state * 60
   \<and> map req_skill_id (requests (snd (reset_converse quiet_env recognition_failed expired_state)))
       = [''timer-skill'']
   \<and> active_skills (snd (reset_converse quiet_env recognition_failed expired_state))
       = [(''timer-skill'', 0)]
   \<and> requests (snd (converse quiet_env PNone ''en-us'' recognition_failed expired_state)) = []
   \<and> active_skills (snd (converse quiet_env PNone ''en-us'' recognition_failed expired_state)) = []"
proof -
  have l: "get_message_lang quiet_env recognition_failed = Inr ''en-us''" by code_simp
  have r: "reset_converse quiet_env recognition_failed expired_state =
      reset_loop quiet_env ''en-us'' recognition_failed (active_skills expired_state) expired_state"
    by (simp add: reset_converse_def l set_default_lf_lang_def)
  show ?thesis
    unfolding r
    by (simp add: do_converse_def converse_def expired_state_def init_def quiet_env_def)
qed

section \<open>Context injection\<close>

lemma add_context_entity_fields:
  "add_context_entity message =
     (let word = (case map_of (data message) ''word'' of
                    None \<Rightarrow> []
                  | Some v \<Rightarrow> if truthy v then py_str v else [])
      in \<lparr> confidence = 1, entity_data = [(word, dict_get (data message) ''context'')],
           entity_match = word, entity_key = word,
           entity_origin = py_or (dict_get (data message) ''origin'') (PStr []) \<rparr>)"
  by (cases "map_of (data message) ''word''")
     (auto simp: add_context_entity_def dict_get_def py_or_def Let_def split: py_value.splits)

text \<open>
  C7 at the word 0: the textual form of the number 0 is the digit 0, but
  \<^verbatim>\<open>message.data.get("word") or ""\<close> replaces every falsy word by the empty string
  before the coercion, so the entity stored has the empty string as its word, match and
  key (\<open>add_context_entity_fields\<close> above: a truthy word is coerced as the claim says).
\<close>

theorem add_context_zero_word:
  "dict_get (data add_context_zero) ''word'' = PInt 0
   \<and> py_str (PInt 0) = ''0''
   \<and> add_context_entity add_context_zero =
       \<lparr> confidence = 1, entity_data = [('''', PStr ''weather'')], entity_match = '''',
         entity_key = '''', entity_origin = PStr '''' \<rparr>"
  by code_simp

section \<open>The vocabulary log\<close>

lemma register_all_log:
  "registered_vocab (register_all e msgs s) =
     registered_vocab s @ map data (filter (\<lambda>m. register_vocabulary e (vocab_args m) = None) msgs)"
  by (induction msgs arbitrary: s) (auto simp: handle_register_vocab_def split: option.splits)

text \<open>
  C8. After any sequence of \<open>register_vocab\<close> messages, the registered-vocabulary log is
  the log before followed by the payloads, unchanged, of the messages that the Adapt
  engine accepted, in the order of the messages and with repetitions kept (all of them
  when the engine raises on none); a manifest query publishes exactly that log and
  leaves it as it is.
\<close>

theorem vocab_manifest_round_trip:
  "(let registered = filter (\<lambda>m. register_vocabulary e (vocab_args m) = None) msgs;
        s' = register_all e msgs s
    in registered_vocab s' = registered_vocab s @ map data registered
     \<and> emitted (handle_vocab_manifest query s') =
         emitted s' @ [VocabManifest (registered_vocab s @ map data registered)]
     \<and> registered_vocab (handle_vocab_manifest query s') = registered_vocab s'
     \<and> ((\<forall>m\<in>set msgs. register_vocabulary e (vocab_args m) = None) \<longrightarrow> registered = msgs))"
  by (simp add: Let_def register_all_log handle_vocab_manifest_def)

theorem vocab_manifest_round_trip_witness:
  "register_vocabulary quiet_env (vocab_args (vocab_message ''london'' ''Location'')) = None
   \<and> register_vocabulary quiet_env (vocab_args (vocab_message ''paris'' ''Location'')) = None
   \<and> emitted (handle_vocab_manifest manifest_query
        (register_all quiet_env [vocab_message ''london'' ''Location'', vocab_message ''paris'' ''Location'',
                                 vocab_message ''london'' ''Location''] init)) =
       [VocabManifest [ [(''entity_value'', PStr ''london''), (''entity_type'', PStr ''Location'')],
                       [(''entity_value'', PStr ''paris''), (''entity_type'', PStr ''Location'')],
                       [(''entity_value'', PStr ''london''), (''entity_type'', PStr ''Location'')]]]"
proof -
  let ?msgs = "[vocab_message ''london'' ''Location'', vocab_message ''paris'' ''Location'',
                vocab_message ''london'' ''Location'']"
  have a: "\<forall>m\<in>set ?msgs. register_vocabulary quiet_env (vocab_args m) = None"
    by (simp add: quiet_env_def)
  have e0: "emitted (register_all quiet_env ?msgs init) = []"
    by (simp add: handle_register_vocab_def quiet_env_def init_def)
  from vocab_manifest_round_trip [of quiet_env ?msgs init manifest_query] a e0
  show ?thesis
    by (simp add: Let_def vocab_message_def init_def quiet_env_def)
qed

section \<open>The language of an utterance event\<close>

text \<open>
  C9 at an event in \<open>de-DE\<close>: the effective language is \<open>de-de\<close> and the matchers are
  called with it, but it is not made the active language of the formatting/parsing
  library. \<open>set_default_lf_lang\<close>, whose docstring says that it sets the default language
  for parsing and formatting, returns \<open>en-us\<close> and sets nothing, so the library's language
  during and after the event is still \<open>en-us\<close>.
\<close>

theorem language_not_made_active:
  "get_message_lang quiet_env german_event = Inr ''de-de''
   \<and> set_default_lf_lang ''de-de'' init = (''en-us'', init)
   \<and> hd (calls (handle_utterance quiet_env german_event init))
       = (Converse, PStr ''wie ist das wetter'', PStr ''de-de'')
   \<and> length (calls (handle_utterance quiet_env german_event init)) = 9
   \<and> lf_lang (handle_utterance quiet_env german_event init) = ''en-us''
   \<and> lf_lang (handle_utterance quiet_env german_event init) \<noteq> ''de-de''"
proof -
  have l: "get_message_lang quiet_env german_event = Inr ''de-de''" by code_simp
  have u: "utterances german_event = Some (''wie ist das wetter'' # [])"
    by (simp add: german_event_def)
  let ?o = "outcome quiet_env (PStr ''wie ist das wetter'') ''de-de'' german_event init"
  have f: "first_match ?o match_funcs = Inr None" and t: "tried ?o match_funcs = match_funcs"
    by (simp_all add: match_funcs_def outcome_def converse_init quiet_env_def)
  have hu: "handle_utterance quiet_env german_event init =
     dispatch quiet_env german_event ''wie ist das wetter'' None
       (init\<lparr>logged := [LogDebug ''skills to handle conversation''],
             calls := calls init @ map (\<lambda>f. (f, PStr ''wie ist das wetter'', PStr ''de-de'')) match_funcs\<rparr>)"
    unfolding handle_utterance_def handle_utterance_body_eq [OF l u]
    using f t by (simp add: Let_def converse_init)
  show ?thesis
    unfolding hu using l
    by (simp add: set_default_lf_lang_def match_funcs_def) (simp add: init_def)
qed

text \<open>
  What the code does with the language of an utterance event, for every event: the
  language computed is the \<open>lang\<close> entry when there is one, else the configured language
  (else \<open>en-us\<close>), lower-cased in both cases; it is the language argument of every matcher
  call and of every converse request of the event; the library's language is the same
  after the event as before. When the language entry is not a string the event is dropped
  with the exception logged.
\<close>

lemma utterance_language_passed:
  "lf_lang (handle_utterance e message s) = lf_lang s
   \<and> set_default_lf_lang l s = (''en-us'', s)
   \<and> get_message_lang e message =
       py_lower (case map_of (data message) ''lang'' of
                   Some v \<Rightarrow> v
                 | None \<Rightarrow> (case map_of (configuration e) ''lang'' of
                               Some c \<Rightarrow> c | None \<Rightarrow> PStr ''en-us''))
   \<and> (\<forall>lang u us. get_message_lang e message = Inr lang \<and> utterances message = Some (u # us) \<longrightarrow>
         (\<forall>c\<in>set (drop (length (calls s)) (calls (handle_utterance e message s))).
             snd (snd c) = PStr lang)
       \<and> (\<forall>q\<in>set (drop (length (requests s)) (requests (handle_utterance e message s))).
             req_lang q = lang))
   \<and> (\<forall>err. get_message_lang e message = Inl err \<longrightarrow>
         handle_utterance e message s = s\<lparr>logged := logged s @ [LogException err]\<rparr>)"
proof -
  have p3: "get_message_lang e message =
       py_lower (case map_of (data message) ''lang'' of
                   Some v \<Rightarrow> v
                 | None \<Rightarrow> (case map_of (configuration e) ''lang'' of
                               Some c \<Rightarrow> c | None \<Rightarrow> PStr ''en-us''))"
    by (simp add: get_message_lang_def dict_get_default_def)
  have p4: "(\<forall>c\<in>set (drop (length (calls s)) (calls (handle_utterance e message s))).
             snd (snd c) = PStr lang)
       \<and> (\<forall>q\<in>set (drop (length (requests s)) (requests (handle_utterance e message s))).
             req_lang q = lang)"
    if lg: "get_message_lang e message = Inr lang" and ut: "utterances message = Some (u # us)"
    for lang u us
  proof -
    obtain rc sc where c: "converse e (PStr u) lang message s = (rc, sc)"
      by (cases "converse e (PStr u) lang message s")
    from converse_requests [OF c] obtain rs where rs: "requests sc = requests s @ rs"
      "\<forall>q\<in>set rs. req_lang q = lang \<and> req_utterances q = PStr u" by blast
    from handle_utterance_state [OF lg ut, of s] c
    have "calls (handle_utterance e message s) =
            calls s @ map (\<lambda>f. (f, PStr u, PStr lang)) (tried (outcome e (PStr u) lang message s) match_funcs)"
      and "requests (handle_utterance e message s) = requests sc"
      by auto
    with rs show ?thesis by auto
  qed
  from handle_utterance_lf_lang [of e message s] p3 p4 handle_utterance_lang_error [of e message _ s]
  show ?thesis by (simp add: set_default_lf_lang_def)
qed

lemma utterance_language_passed_example:
  "get_message_lang british_env plain_event = Inr ''en-gb''
   \<and> utterances plain_event = Some [''weather today'']
   \<and> hd (calls (handle_utterance british_env plain_event init))
       = (Converse, PStr ''weather today'', PStr ''en-gb'')
   \<and> lf_lang (handle_utterance british_env plain_event init) = ''en-us''
   \<and> get_message_lang british_env (plain_event\<lparr> data := [(''lang'', PInt 7)] \<rparr>) = Inl AttributeError
   \<and> handle_utterance british_env (plain_event\<lparr> data := [(''lang'', PInt 7)] \<rparr>) init
       = init\<lparr>logged := [LogException AttributeError]\<rparr>"
proof -
  have l: "get_message_lang british_env plain_event = Inr ''en-gb''" by code_simp
  have u: "utterances plain_event = Some (''weather today'' # [])" by (simp add: plain_event_def)
  have b: "get_message_lang british_env (plain_event\<lparr> data := [(''lang'', PInt 7)] \<rparr>) = Inl AttributeError"
    by (simp add: get_message_lang_def dict_get_default_def)
  let ?o = "outcome british_env (PStr ''weather today'') ''en-gb'' plain_event init"
  have t: "tried ?o match_funcs = match_funcs"
    by (simp add: match_funcs_def outcome_def converse_init british_env_def quiet_env_def)
  from handle_utterance_state [OF l u, of init] t
  have c: "calls (handle_utterance british_env plain_event init) =
        calls init @ map (\<lambda>f. (f, PStr ''weather today'', PStr ''en-gb'')) match_funcs"
    by auto
  then have h: "hd (calls (handle_utterance british_env plain_event init))
       = (Converse, PStr ''weather today'', PStr ''en-gb'')"
    by (simp add: init_def match_funcs_def)
  note th1 = utterance_language_passed [of british_env plain_event init]
  note th2 = utterance_language_passed [of british_env "plain_event\<lparr> data := [(''lang'', PInt 7)] \<rparr>" init]
  from th1 have lf: "lf_lang (handle_utterance british_env plain_event init) = ''en-us''"
    by (simp add: init_def)
  from th2 b have er: "handle_utterance british_env (plain_event\<lparr> data := [(''lang'', PInt 7)] \<rparr>) init
       = init\<lparr>logged := [LogException AttributeError]\<rparr>"
    by (simp add: init_def)
  from l u h lf b er show ?thesis by simp
qed

section \<open>Properties of the intent probe\<close>

lemma probe_loop_state:
  "snd (probe_loop e utt lang message fs s) =
     s\<lparr>calls := calls s @ map (\<lambda>f. (f, utt, lang)) (tried (\<lambda>f. match_func e f utt lang message) fs),
       emitted := emitted s @ probe_published (\<lambda>f. match_func e f utt lang message) fs\<rparr>"
proof (induction fs arbitrary: s)
  case Nil
  show ?case by (simp add: probe_published_def)
next
  case (Cons f fs)
  let ?out = "\<lambda>f. match_func e f utt lang message"
  show ?case
  proof (cases "?out f")
    case (Inl err)
    then show ?thesis by (simp add: probe_published_def)
  next
    case (Inr mo)
    show ?thesis
    proof (cases mo)
      case (Some m)
      with Inr show ?thesis
        by (simp add: probe_published_def probe_answer_def Let_def split: option.splits)
    next
      case None
      have pp: "probe_published ?out (f # fs) = probe_published ?out fs"
      proof (cases "first_match ?out fs = Inr None")
        case True
        with None Inr show ?thesis by (simp add: probe_published_def)
      next
        case False
        from first_match_tried [OF False] have "tried ?out fs \<noteq> []" by simp
        with None Inr have a: "last (tried ?out (f # fs)) = last (tried ?out fs)"
          and b: "first_match ?out (f # fs) = first_match ?out fs" by simp_all
        show ?thesis unfolding probe_published_def a b by (rule refl)
      qed
      from None Inr Cons.IH [of "s\<lparr>calls := calls s @ [(f, utt, lang)]\<rparr>"] pp
      show ?thesis by simp
    qed
  qed
qed





section \<open>The registry holds one entry for a skill\<close>

lemma handle_converse_error_distinct:
  "handle_converse_error d s = (r, s') \<Longrightarrow> distinct (map fst (active_skills s)) \<Longrightarrow>
   distinct (map fst (active_skills s'))"
  by (auto simp: handle_converse_error_def Let_def distinct_remove
           split: sum.splits if_splits py_value.splits)

lemma do_converse_distinct:
  "do_converse e utt sid lang message s = (r, s') \<Longrightarrow> distinct (map fst (active_skills s)) \<Longrightarrow>
   distinct (map fst (active_skills s'))"
  by (auto simp: do_converse_def Let_def split: option.splits if_splits prod.splits sum.splits
           dest!: handle_converse_error_distinct)

lemma converse_loop_distinct:
  "converse_loop e utt lang message skills s = (r, s') \<Longrightarrow> distinct (map fst (active_skills s)) \<Longrightarrow>
   distinct (map fst (active_skills s'))"
proof (induction skills arbitrary: s)
  case Nil
  then show ?case by simp
next
  case (Cons skill skills)
  obtain r1 s1 where dc: "do_converse e utt (fst skill) lang message s = (r1, s1)"
    by (cases "do_converse e utt (fst skill) lang message s")
  from do_converse_distinct [OF dc Cons.prems(2)] have d1: "distinct (map fst (active_skills s1))" .
  show ?case
  proof (cases "\<exists>ret. r1 = Inr ret \<and> \<not> truthy ret")
    case False
    with dc Cons.prems(1) have "s' = s1" by (cases r1) (auto split: if_splits)
    with d1 show ?thesis by simp
  next
    case True
    with dc Cons.prems(1) have "converse_loop e utt lang message skills s1 = (r, s')" by auto
    from Cons.IH [OF this d1] show ?thesis .
  qed
qed

lemma converse_distinct:
  assumes "distinct (map fst (active_skills s))"
  shows "distinct (map fst (active_skills (snd (converse e utt lang message s))))"
proof -
  obtain r s' where c: "converse e utt lang message s = (r, s')"
    by (cases "converse e utt lang message s")
  from c have "converse_loop e utt lang message
      (prune e (converse_timeout s) (clock_reads s) (active_skills s))
      (s\<lparr>active_skills := prune e (converse_timeout s) (clock_reads s) (active_skills s),
         clock_reads := clock_reads s + length (active_skills s),
         logged := logged s @ [LogDebug ''skills to handle conversation'']\<rparr>) = (r, s')"
    by (simp add: converse_def Let_def)
  from converse_loop_distinct [OF this] assms c show ?thesis by (simp add: distinct_prune)
qed

lemma reset_loop_distinct:
  "reset_loop e lang message skills s = (r, s') \<Longrightarrow> distinct (map fst (active_skills s)) \<Longrightarrow>
   distinct (map fst (active_skills s'))"
proof (induction skills arbitrary: s)
  case Nil
  then show ?case by simp
next
  case (Cons skill skills)
  obtain r1 s1 where dc: "do_converse e PNone (fst skill) lang message s = (r1, s1)"
    by (cases "do_converse e PNone (fst skill) lang message s")
  from do_converse_distinct [OF dc Cons.prems(2)] have d1: "distinct (map fst (active_skills s1))" .
  show ?case
  proof (cases r1)
    case (Inl err)
    with dc Cons.prems(1) d1 show ?thesis by auto
  next
    case (Inr ret)
    with dc Cons.prems(1) have "reset_loop e lang message skills s1 = (r, s')" by simp
    from Cons.IH [OF this d1] show ?thesis .
  qed
qed

lemma reset_converse_distinct:
  assumes "distinct (map fst (active_skills s))"
  shows "distinct (map fst (active_skills (snd (reset_converse e message s))))"
proof (cases "get_message_lang e message")
  case (Inl err)
  with assms show ?thesis by (simp add: reset_converse_def)
next
  case (Inr lang)
  obtain r s' where c: "reset_loop e lang message (active_skills s) s = (r, s')"
    by (cases "reset_loop e lang message (active_skills s) s")
  from reset_loop_distinct [OF c assms] c Inr show ?thesis
    by (simp add: reset_converse_def set_default_lf_lang_def)
qed

lemma dispatch_distinct:
  "distinct (map fst (active_skills s)) \<Longrightarrow>
   distinct (map fst (active_skills (dispatch e message u match s)))"
  by (auto simp: dispatch_def send_complete_intent_failure_def Let_def distinct_add split: option.splits)

lemma handle_utterance_distinct:
  assumes "distinct (map fst (active_skills s))"
  shows "distinct (map fst (active_skills (handle_utterance e message s)))"
proof (cases "get_message_lang e message")
  case (Inl err)
  with assms show ?thesis by (simp add: handle_utterance_lang_error)
next
  case (Inr lang)
  from first_utterance_cases [of message] show ?thesis
  proof
    assume "\<exists>err. first_utterance message = Inl err"
    with Inr assms show ?thesis by (auto simp: handle_utterance_no_utterance)
  next
    assume "\<exists>u us. utterances message = Some (u # us)"
    then obtain u us where u: "utterances message = Some (u # us)" by blast
    let ?sc = "snd (converse e (PStr u) lang message s)"
    have d: "distinct (map fst (active_skills ?sc))" using assms by (rule converse_distinct)
    let ?s2 = "?sc\<lparr>calls := calls s @ map (\<lambda>f. (f, PStr u, PStr lang))
                     (tried (outcome e (PStr u) lang message s) match_funcs)\<rparr>"
    from d have d2: "distinct (map fst (active_skills ?s2))" by simp
    from handle_utterance_state [OF Inr u, of s] dispatch_distinct [OF d2] d2
    show ?thesis by auto
  qed
qed

lemma handle_get_intent_registry:
  "active_skills (snd (handle_get_intent e message s)) = active_skills s"
  by (cases "map_of (data message) ''utterance''")
     (simp_all add: handle_get_intent_def dict_item_def probe_loop_state)

text \<open>
  C6. The registry holds at most one entry for a skill id, and the operations keep it so.
  From a registry without duplicate ids: \<open>add_active_skill\<close> and \<open>remove_active_skill\<close>
  give a registry without duplicate ids; activating the empty id only logs a warning;
  activating a non-empty id removes its entry and puts it first with the current clock
  reading; activating \<open>x\<close>, \<open>y\<close>, \<open>x\<close> (distinct, non-empty) puts \<open>x\<close> then \<open>y\<close> in
  front of the other ids, with no duplicate; deactivation removes the entry if there is one
  and doing it twice is the same as doing it once. The handlers that touch the registry
  (\<open>_converse\<close> with its pruning and evictions, \<open>handle_utterance\<close>, \<open>reset_converse\<close>)
  keep it without duplicate ids as well, and the intent probe leaves it as it is.
\<close>

theorem registry_one_entry_per_skill:
  assumes "distinct (map fst (active_skills s))"
  shows "distinct (map fst (active_skills (add_active_skill e sid s)))
       \<and> distinct (map fst (active_skills (remove_active_skill sid s)))
       \<and> add_active_skill e [] s =
           s\<lparr>logged := logged s @ [LogWarning ''Skill ID was empty, won't add to list of active skills.'']\<rparr>
       \<and> (sid \<noteq> [] \<longrightarrow> active_skills (add_active_skill e sid s) =
             (sid, clock e (clock_reads s)) # filter (\<lambda>x. fst x \<noteq> sid) (active_skills s))
       \<and> (x \<noteq> [] \<and> y \<noteq> [] \<and> x \<noteq> y \<longrightarrow>
            map fst (active_skills (add_active_skill e x (add_active_skill e y (add_active_skill e x s)))) =
              x # y # filter (\<lambda>k. k \<noteq> x \<and> k \<noteq> y) (map fst (active_skills s)))
       \<and> active_skills (remove_active_skill sid s) = filter (\<lambda>x. fst x \<noteq> sid) (active_skills s)
       \<and> remove_active_skill sid (remove_active_skill sid s) = remove_active_skill sid s
       \<and> distinct (map fst (active_skills (snd (converse e utt lang message s))))
       \<and> distinct (map fst (active_skills (handle_utterance e message s)))
       \<and> distinct (map fst (active_skills (snd (reset_converse e message s))))
       \<and> active_skills (snd (handle_get_intent e message s)) = active_skills s"
proof -
  have idem: "remove_active_skill sid (remove_active_skill sid s) = remove_active_skill sid s"
  proof -
    have "\<forall>x\<in>set (remove_loop sid 0 (active_skills s)). fst x \<noteq> sid"
      using assms by (simp add: remove_loop_filter)
    then have "remove_loop sid 0 (remove_loop sid 0 (active_skills s)) = remove_loop sid 0 (active_skills s)"
      by (rule remove_loop_absent)
    then show ?thesis by (simp add: remove_active_skill_def)
  qed
  have xyx: "map fst (active_skills (add_active_skill e x (add_active_skill e y (add_active_skill e x s)))) =
              x # y # filter (\<lambda>k. k \<noteq> x \<and> k \<noteq> y) (map fst (active_skills s))"
    if "x \<noteq> []" "y \<noteq> []" "x \<noteq> y"
  proof -
    let ?s1 = "add_active_skill e x s"
    let ?s2 = "add_active_skill e y ?s1"
    have d1: "distinct (map fst (active_skills ?s1))" using assms by (rule distinct_add)
    have d2: "distinct (map fst (active_skills ?s2))" using d1 by (rule distinct_add)
    show ?thesis
      using that assms d1 d2
      by (simp add: active_skills_add filter_map comp_def conj_commute)
  qed
  have empty: "add_active_skill e [] s =
      s\<lparr>logged := logged s @ [LogWarning ''Skill ID was empty, won't add to list of active skills.'']\<rparr>"
    by (simp add: add_active_skill_def)
  have front: "sid \<noteq> [] \<longrightarrow> active_skills (add_active_skill e sid s) =
             (sid, clock e (clock_reads s)) # filter (\<lambda>x. fst x \<noteq> sid) (active_skills s)"
    using assms by (simp add: active_skills_add)
  note d_add = distinct_add [OF assms, of e sid]
  note d_rem = distinct_remove [OF assms, of sid]
  note rem = active_skills_remove [OF assms, of sid]
  note d_conv = converse_distinct [OF assms, of e utt lang message]
  note d_utt = handle_utterance_distinct [OF assms, of e message]
  note d_reset = reset_converse_distinct [OF assms, of e message]
  note probe = handle_get_intent_registry [of e message s]
  from d_add d_rem empty front xyx rem idem d_conv d_utt d_reset probe show ?thesis by blast
qed

theorem registry_one_entry_per_skill_witness:
  "distinct (map fst (active_skills init))
   \<and> map fst (active_skills (add_active_skill quiet_env ''X''
         (add_active_skill quiet_env ''Y'' (add_active_skill quiet_env ''X'' init)))) = [''X'', ''Y'']
   \<and> active_skills (add_active_skill quiet_env ''X'' init) = [(''X'', 1000)]
   \<and> active_skills (remove_active_skill ''X'' init) = []"
  using registry_one_entry_per_skill [where s = init and e = quiet_env and sid = "''X''"
      and x = "''X''" and y = "''Y''"]
  by (simp add: init_def quiet_env_def)

end
